theory Spec2Isabelle
  imports Complex_Main "HOL-Library.Sublist" "HOL-Library.Word"
begin

section \<open>Data model\<close>

text \<open>
  The script \<^verbatim>\<open>segmentation_dataset_augmentation.py\<close> is one linear pipeline over
  files. Its own code is string handling, two loops and a counter; everything else is a
  call on \<^verbatim>\<open>os\<close>, \<^verbatim>\<open>cv2\<close> or \<^verbatim>\<open>albumentations\<close>. The embedding keeps the
  script's control flow and names, makes the calls that read the world parameters of a
  record \<open>env\<close>, and records the calls that change the world as an ordered list of events.

  A decoded picture is a NumPy array of bytes: its shape (\<open>[h, w, 3]\<close> for a colour image,
  \<open>[h, w]\<close> for a grayscale mask) and its elements.
\<close>

datatype ndarray = NDArray (shape: "nat list") (pixels: "8 word list")

definition hw :: "ndarray \<Rightarrow> nat list" where
  "hw a = take 2 (shape a)"

datatype interpolation = INTER_NEAREST | INTER_LINEAR | INTER_CUBIC | INTER_AREA

datatype border_mode = BORDER_CONSTANT | BORDER_REPLICATE | BORDER_REFLECT | BORDER_WRAP

text \<open>
  A transform object is its class and the keyword arguments of its constructor. The
  decimal literals of the source are kept as the decimals they denote.
\<close>

datatype transform =
    RandomBrightnessContrast (brightness_limit: real) (contrast_limit: real)
      (brightness_by_max: bool) (p: real)
  | Defocus (radius: "int \<times> int") (alias_blur: "real \<times> real") (p: real)
  | GlassBlur (sigma: real) (max_delta: int) (iterations: int) (mode: string) (p: real)
  | ISONoise (color_shift: "real \<times> real") (intensity: "real \<times> real") (p: real)
  | ShiftScaleRotate (shift_limit: real) (scale_limit: real) (rotate_limit: int)
      (interpolation: interpolation) (border_mode: border_mode) (val: int)
      (mask_value: int) (p: real)

text \<open>\<^verbatim>\<open>transform.__class__.__name__\<close>\<close>

fun class_name :: "transform \<Rightarrow> string" where
  "class_name (RandomBrightnessContrast _ _ _ _) = ''RandomBrightnessContrast''"
| "class_name (Defocus _ _ _) = ''Defocus''"
| "class_name (GlassBlur _ _ _ _ _) = ''GlassBlur''"
| "class_name (ISONoise _ _ _) = ''ISONoise''"
| "class_name (ShiftScaleRotate _ _ _ _ _ _ _ _) = ''ShiftScaleRotate''"

text \<open>
  The source groups the list under two comments: photometric augmentations and the
  geometric augmentation.
\<close>

fun is_geometric :: "transform \<Rightarrow> bool" where
  "is_geometric (ShiftScaleRotate _ _ _ _ _ _ _ _) = True"
| "is_geometric _ = False"

datatype error = IndexError | CvError | AugmentationError

text \<open>
  What the script reads: the listing of \<^verbatim>\<open>X\<close>, the two decoders (\<open>None\<close> when
  \<^verbatim>\<open>cv2.imread\<close> returns \<^verbatim>\<open>None\<close>), the existence test, and the call of a transform
  object on \<^verbatim>\<open>image=\<close> and \<^verbatim>\<open>mask=\<close>. The transforms draw random numbers, so the call
  also takes the number of calls made before it; it raises or returns the pair
  \<^verbatim>\<open>augmented["image"]\<close>, \<^verbatim>\<open>augmented["mask"]\<close>.
\<close>

record env =
  os_listdir :: "string list"
  cv2_imread :: "string \<Rightarrow> ndarray option"
  os_path_exists :: "string \<Rightarrow> bool"
  cv2_imread_gray :: "string \<Rightarrow> ndarray option"
  apply_aug :: "transform \<Rightarrow> nat \<Rightarrow> ndarray \<Rightarrow> ndarray option
                 \<Rightarrow> error + (ndarray \<times> ndarray option)"

text \<open>What the script does to the world, in the order it does it.\<close>

datatype event =
    Print string
  | MakeDirs string
  | Apply transform ndarray "ndarray option"
  | ImWrite string ndarray

text \<open>The script's mutable state: its progress counter and the library's random state.\<close>

record state =
  counter :: nat
  rng :: nat

section \<open>Strings\<close>

definition lower_char :: "char \<Rightarrow> char" where
  "lower_char c =
     (case map_of (zip ''ABCDEFGHIJKLMNOPQRSTUVWXYZ'' ''abcdefghijklmnopqrstuvwxyz'') c of
        None \<Rightarrow> c | Some d \<Rightarrow> d)"

definition lower :: "string \<Rightarrow> string" where
  "lower s = map lower_char s"

definition endswith :: "string \<Rightarrow> string \<Rightarrow> bool" where
  "endswith s suf = (length suf \<le> length s \<and> drop (length s - length suf) s = suf)"

text \<open>\<^verbatim>\<open>s.split(c)\<close> for a one-character separator: never empty.\<close>

fun split :: "char \<Rightarrow> string \<Rightarrow> string list" where
  "split c [] = [[]]"
| "split c (x # xs) =
     (if x = c then [] # split c xs
      else (case split c xs of [] \<Rightarrow> [[x]] | y # ys \<Rightarrow> (x # y) # ys))"

text \<open>\<^verbatim>\<open>xs[i]\<close> for \<open>i \<ge> 0\<close>: out of range raises.\<close>

definition item :: "'a list \<Rightarrow> nat \<Rightarrow> error + 'a" where
  "item xs i = (if i < length xs then Inr (xs ! i) else Inl IndexError)"

text \<open>\<^verbatim>\<open>s[:-4]\<close>\<close>

definition drop_last4 :: "string \<Rightarrow> string" where
  "drop_last4 s = take (length s - 4) s"

definition digit_char :: "nat \<Rightarrow> char" where
  "digit_char d = ''0123456789'' ! d"

text \<open>\<^verbatim>\<open>str(n)\<close> for \<open>n \<ge> 0\<close>.\<close>

fun str :: "nat \<Rightarrow> string" where
  "str n = (if n < 10 then [digit_char n] else str (n div 10) @ [digit_char (n mod 10)])"

declare str.simps [simp del]

text \<open>\<^verbatim>\<open>os.path.join(a, b)\<close> of \<^verbatim>\<open>posixpath\<close>.\<close>

definition join :: "string \<Rightarrow> string \<Rightarrow> string" where
  "join a b =
     (if b \<noteq> [] \<and> hd b = CHR ''/'' then b
      else if a = [] \<or> last a = CHR ''/'' then a @ b
      else a @ ''/'' @ b)"

section \<open>Global configuration\<close>

definition IMAGE_DIR :: string where "IMAGE_DIR = ''X''"
definition MASK_DIR :: string where "MASK_DIR = ''y''"
definition OUT_IMAGE_ROOT :: string where "OUT_IMAGE_ROOT = ''augmented_x''"
definition OUT_MASK_ROOT :: string where "OUT_MASK_ROOT = ''augmented_y''"
definition IMAGE_EXTENSION :: string where "IMAGE_EXTENSION = ''.jpg''"

definition TRANSFORMATIONS :: "transform list" where
  "TRANSFORMATIONS =
     [RandomBrightnessContrast 0.35 0.35 True 1.0,
      Defocus (1, 2) (0.1, 0.15) 1.0,
      GlassBlur 0.1 1 1 ''fast'' 1.0,
      ISONoise (0.02, 0.03) (0.2, 0.3) 1.0,
      ShiftScaleRotate 0.02 0.2 5 INTER_LINEAR BORDER_CONSTANT 0 0 1.0]"

section \<open>The pipeline\<close>

text \<open>\<^verbatim>\<open>image_name.split("_")[1].split(".")[0]\<close>\<close>

definition base_id_of :: "string \<Rightarrow> error + string" where
  "base_id_of image_name =
     (case item (split (CHR ''_'') image_name) 1 of
        Inl e \<Rightarrow> Inl e
      | Inr part \<Rightarrow> item (split (CHR ''.'') part) 0)"

definition progress_line :: "nat \<Rightarrow> nat \<Rightarrow> string \<Rightarrow> string" where
  "progress_line k tot transform_name =
     ''['' @ str k @ ''/'' @ str tot @ ''] Saved -> '' @ transform_name"

text \<open>The two output paths of one transform, as the inner loop builds them.\<close>

definition out_image_path :: "string \<Rightarrow> transform \<Rightarrow> string" where
  "out_image_path image_name transform =
     (let transform_name = class_name transform;
          out_img_dir = join OUT_IMAGE_ROOT transform_name
      in join out_img_dir (drop_last4 image_name @ ''-'' @ transform_name @ ''.jpg''))"

definition out_mask_path :: "string \<Rightarrow> transform \<Rightarrow> string" where
  "out_mask_path base_id transform =
     (let transform_name = class_name transform;
          out_mask_dir = join OUT_MASK_ROOT transform_name
      in join out_mask_dir (''mask_'' @ base_id @ ''-'' @ transform_name @ ''.png''))"

text \<open>
  The body of the inner loop, for one transform: both directories, the call, both writes,
  the progress line, the counter. \<^verbatim>\<open>cv2.imwrite(path, img)\<close> raises on \<^verbatim>\<open>None\<close>
  and writes the file otherwise; the image the library returns is an array.
\<close>

definition apply_one ::
  "env \<Rightarrow> nat \<Rightarrow> string \<Rightarrow> string \<Rightarrow> ndarray \<Rightarrow> ndarray option \<Rightarrow> state \<Rightarrow> transform
     \<Rightarrow> event list \<times> (error + state)" where
  "apply_one e total_outputs image_name base_id img msk st transform =
     (let transform_name = class_name transform;
          out_img_dir = join OUT_IMAGE_ROOT transform_name;
          out_mask_dir = join OUT_MASK_ROOT transform_name;
          called = [MakeDirs out_img_dir, MakeDirs out_mask_dir, Apply transform img msk]
      in case apply_aug e transform (rng st) img msk of
           Inl err \<Rightarrow> (called, Inl err)
         | Inr (aug_image, aug_mask) \<Rightarrow>
             (case aug_mask of
                None \<Rightarrow>
                  (called @ [ImWrite (out_image_path image_name transform) aug_image],
                   Inl CvError)
              | Some m \<Rightarrow>
                  (called @
                     [ImWrite (out_image_path image_name transform) aug_image,
                      ImWrite (out_mask_path base_id transform) m,
                      Print (progress_line (counter st) total_outputs transform_name)],
                   Inr (st\<lparr>counter := counter st + 1, rng := rng st + 1\<rparr>))))"

text \<open>\<^verbatim>\<open>for transform in TRANSFORMATIONS\<close>: an error ends the loop and is passed on.\<close>

fun transform_loop ::
  "env \<Rightarrow> nat \<Rightarrow> string \<Rightarrow> string \<Rightarrow> ndarray \<Rightarrow> ndarray option \<Rightarrow> state \<Rightarrow> transform list
     \<Rightarrow> event list \<times> (error + state)" where
  "transform_loop e total_outputs image_name base_id img msk st [] = ([], Inr st)"
| "transform_loop e total_outputs image_name base_id img msk st (t # ts) =
     (case apply_one e total_outputs image_name base_id img msk st t of
        (evs, Inl err) \<Rightarrow> (evs, Inl err)
      | (evs, Inr st') \<Rightarrow>
          (case transform_loop e total_outputs image_name base_id img msk st' ts of
             (evs', r) \<Rightarrow> (evs @ evs', r)))"

text \<open>The body of the outer loop, for one file name. \<^verbatim>\<open>continue\<close> is \<open>Inr\<close> of the state.\<close>

definition process_image ::
  "env \<Rightarrow> nat \<Rightarrow> state \<Rightarrow> string \<Rightarrow> event list \<times> (error + state)" where
  "process_image e total_outputs st image_name =
     (let image_path = join IMAGE_DIR image_name
      in case cv2_imread e image_path of
           None \<Rightarrow> ([Print (''[WARNING] Failed to read image: '' @ image_name)], Inr st)
         | Some img \<Rightarrow>
             (case base_id_of image_name of
                Inl err \<Rightarrow> ([], Inl err)
              | Inr base_id \<Rightarrow>
                  (let mask_name = ''mask_'' @ base_id @ ''.png'';
                       mask_path = join MASK_DIR mask_name
                   in if \<not> os_path_exists e mask_path
                      then ([Print (''[WARNING] Mask not found: '' @ mask_path)], Inr st)
                      else transform_loop e total_outputs image_name base_id img
                             (cv2_imread_gray e mask_path) st TRANSFORMATIONS)))"

text \<open>\<^verbatim>\<open>for image_name in image_files\<close>\<close>

fun image_loop ::
  "env \<Rightarrow> nat \<Rightarrow> state \<Rightarrow> string list \<Rightarrow> event list \<times> (error + state)" where
  "image_loop e total_outputs st [] = ([], Inr st)"
| "image_loop e total_outputs st (image_name # rest) =
     (case process_image e total_outputs st image_name of
        (evs, Inl err) \<Rightarrow> (evs, Inl err)
      | (evs, Inr st') \<Rightarrow>
          (case image_loop e total_outputs st' rest of (evs', r) \<Rightarrow> (evs @ evs', r)))"

definition image_files :: "env \<Rightarrow> string list" where
  "image_files e = filter (\<lambda>f. endswith (lower f) IMAGE_EXTENSION) (os_listdir e)"

definition total_outputs :: "env \<Rightarrow> nat" where
  "total_outputs e = length (image_files e) * length TRANSFORMATIONS"

definition header :: "env \<Rightarrow> event list" where
  "header e =
     [Print (''Detected images          : '' @ str (length (image_files e))),
      Print (''Augmentations per image  : '' @ str (length TRANSFORMATIONS)),
      Print (''Total outputs to be saved: '' @ str (total_outputs e)),
      Print (replicate 50 (CHR ''-''))]"

definition completed_message :: string where
  "completed_message =
     [CHR 0x0A, CHR 0xE2, CHR 0x9C, CHR 0x85] @ '' Dataset augmentation completed successfully.''"

text \<open>The whole script, from the random state the library starts in.\<close>

definition pipeline :: "env \<Rightarrow> nat \<Rightarrow> event list \<times> (error + state)" where
  "pipeline e seed =
     (case image_loop e (total_outputs e) \<lparr>counter = 1, rng = seed\<rparr> (image_files e) of
        (evs, Inl err) \<Rightarrow> (header e @ evs, Inl err)
      | (evs, Inr st) \<Rightarrow> (header e @ evs @ [Print completed_message], Inr st))"

section \<open>Observations on a run\<close>

text \<open>The paths handed to \<^verbatim>\<open>cv2.imwrite\<close>, in order.\<close>

fun write_paths :: "event list \<Rightarrow> string list" where
  "write_paths [] = []"
| "write_paths (ImWrite path a # evs) = path # write_paths evs"
| "write_paths (ev # evs) = write_paths evs"

text \<open>The transform objects called, in order.\<close>

fun applied :: "event list \<Rightarrow> transform list" where
  "applied [] = []"
| "applied (Apply t img msk # evs) = t # applied evs"
| "applied (ev # evs) = applied evs"

text \<open>Everything printed, in order.\<close>

fun printed :: "event list \<Rightarrow> string list" where
  "printed [] = []"
| "printed (Print s # evs) = s # printed evs"
| "printed (ev # evs) = printed evs"

text \<open>The lines printed directly after a write.\<close>

fun saved_lines :: "event list \<Rightarrow> string list" where
  "saved_lines (ImWrite path a # Print s # evs) = s # saved_lines evs"
| "saved_lines (ev # evs) = saved_lines evs"
| "saved_lines [] = []"

text \<open>
  An emitted pair is an image write directly followed by a mask write, as the inner loop
  issues them; \<open>pair_dims\<close> gives the height and width of both members.
\<close>

fun write_pairs :: "event list \<Rightarrow> (ndarray \<times> ndarray) list" where
  "write_pairs (ImWrite path a # ImWrite path' b # evs) = (a, b) # write_pairs evs"
| "write_pairs (ev # evs) = write_pairs evs"
| "write_pairs [] = []"

definition pair_dims :: "event list \<Rightarrow> (nat list \<times> nat list) list" where
  "pair_dims evs = map (\<lambda>(a, b). (hw a, hw b)) (write_pairs evs)"

text \<open>
  The progress line the spec describes for the save number \<open>i\<close>, counted from 0: the
  numerator is \<open>i + 1\<close>, and the transform names come round in the order of the list.
\<close>

definition expected_line :: "nat \<Rightarrow> nat \<Rightarrow> string" where
  "expected_line tot i =
     ''['' @ str (Suc i) @ ''/'' @ str tot @ ''] Saved -> '' @
       class_name (TRANSFORMATIONS ! (i mod 5))"

text \<open>A list of events that does not start with a write.\<close>

fun quiet :: "event list \<Rightarrow> bool" where
  "quiet (ImWrite path a # evs) = False"
| "quiet evs = True"






section \<open>What is assumed of the library\<close>

text \<open>
  Given an image and a mask of the same height and width, the library returns an image and
  a mask of the same height and width.
\<close>

definition keeps_shape :: "env \<Rightarrow> bool" where
  "keeps_shape e =
     (\<forall>t k img m a r. apply_aug e t k img (Some m) = Inr (a, Some r) \<and> hw img = hw m \<longrightarrow>
        hw a = hw r)"

text \<open>The library never makes a mask out of a missing one: it raises or hands back \<open>None\<close>.\<close>

definition none_stays_none :: "env \<Rightarrow> bool" where
  "none_stays_none e =
     (\<forall>t k img a r. apply_aug e t k img None = Inr (a, r) \<longrightarrow> r = None)"




section \<open>Example worlds\<close>

text \<open>
  A world built from a listing of \<^verbatim>\<open>X\<close>, the decodable images by path, and the files
  of \<^verbatim>\<open>y\<close> by path (\<open>None\<close> for a file that is there and does not decode). Its library
  shifts every image byte by the call number plus one and leaves the mask alone under the
  photometric transforms; under the geometric one it hands the mask back at the height and
  width of the image: reversed when it had that size already, filled with the border value
  otherwise.
\<close>

definition warp_mask :: "nat list \<Rightarrow> ndarray \<Rightarrow> ndarray" where
  "warp_mask dims a =
     (if hw a = dims then NDArray (shape a) (rev (pixels a))
      else NDArray (dims @ drop 2 (shape a)) (replicate (prod_list (dims @ drop 2 (shape a))) 0))"

definition demo_aug ::
  "transform \<Rightarrow> nat \<Rightarrow> ndarray \<Rightarrow> ndarray option \<Rightarrow> error + (ndarray \<times> ndarray option)" where
  "demo_aug t k img m =
     Inr (NDArray (shape img) (map (\<lambda>x. x + of_nat k + 1) (pixels img)),
          if is_geometric t then map_option (warp_mask (hw img)) m else m)"

definition dataset_env ::
  "string list \<Rightarrow> (string \<times> ndarray) list \<Rightarrow> (string \<times> ndarray option) list \<Rightarrow> env" where
  "dataset_env names images masks =
     \<lparr>os_listdir = names,
      cv2_imread = map_of images,
      os_path_exists = (\<lambda>path. map_of masks path \<noteq> None),
      cv2_imread_gray = (\<lambda>path. case map_of masks path of Some (Some m) \<Rightarrow> Some m | _ \<Rightarrow> None),
      apply_aug = demo_aug\<rparr>"

definition demo_image :: ndarray where
  "demo_image = NDArray [2, 2, 3] [10, 20, 30, 40, 50, 60, 70, 80, 90, 100, 110, 120]"

definition demo_mask :: ndarray where
  "demo_mask = NDArray [2, 2] [0, 255, 255, 0]"

text \<open>
  One good pair, a file that is no image, an image that does not decode, and an image in
  upper case whose mask is missing.
\<close>

definition demo_env :: env where
  "demo_env =
     dataset_env [''image_1.jpg'', ''notes.txt'', ''image_7.jpg'', ''IMAGE_2_b.JPG'']
       [(''X/image_1.jpg'', demo_image), (''X/IMAGE_2_b.JPG'', demo_image)]
       [(''y/mask_1.png'', Some demo_mask)]"

definition demo_trace :: "event list" where
  "demo_trace =
     [Print ''Detected images          : 3'',
      Print ''Augmentations per image  : 5'',
      Print ''Total outputs to be saved: 15'',
      Print ''--------------------------------------------------'',
      MakeDirs ''augmented_x/RandomBrightnessContrast'',
      MakeDirs ''augmented_y/RandomBrightnessContrast'',
      Apply (RandomBrightnessContrast 0.35 0.35 True 1) demo_image (Some demo_mask),
      ImWrite ''augmented_x/RandomBrightnessContrast/image_1-RandomBrightnessContrast.jpg''
        (NDArray [2, 2, 3] [11, 21, 31, 41, 51, 61, 71, 81, 91, 101, 111, 121]),
      ImWrite ''augmented_y/RandomBrightnessContrast/mask_1-RandomBrightnessContrast.png''
        demo_mask,
      Print ''[1/15] Saved -> RandomBrightnessContrast'',
      MakeDirs ''augmented_x/Defocus'',
      MakeDirs ''augmented_y/Defocus'',
      Apply (Defocus (1, 2) (0.1, 0.15) 1) demo_image (Some demo_mask),
      ImWrite ''augmented_x/Defocus/image_1-Defocus.jpg''
        (NDArray [2, 2, 3] [12, 22, 32, 42, 52, 62, 72, 82, 92, 102, 112, 122]),
      ImWrite ''augmented_y/Defocus/mask_1-Defocus.png'' demo_mask,
      Print ''[2/15] Saved -> Defocus'',
      MakeDirs ''augmented_x/GlassBlur'',
      MakeDirs ''augmented_y/GlassBlur'',
      Apply (GlassBlur 0.1 1 1 ''fast'' 1) demo_image (Some demo_mask),
      ImWrite ''augmented_x/GlassBlur/image_1-GlassBlur.jpg''
        (NDArray [2, 2, 3] [13, 23, 33, 43, 53, 63, 73, 83, 93, 103, 113, 123]),
      ImWrite ''augmented_y/GlassBlur/mask_1-GlassBlur.png'' demo_mask,
      Print ''[3/15] Saved -> GlassBlur'',
      MakeDirs ''augmented_x/ISONoise'',
      MakeDirs ''augmented_y/ISONoise'',
      Apply (ISONoise (0.02, 0.03) (0.2, 0.3) 1) demo_image (Some demo_mask),
      ImWrite ''augmented_x/ISONoise/image_1-ISONoise.jpg''
        (NDArray [2, 2, 3] [14, 24, 34, 44, 54, 64, 74, 84, 94, 104, 114, 124]),
      ImWrite ''augmented_y/ISONoise/mask_1-ISONoise.png'' demo_mask,
      Print ''[4/15] Saved -> ISONoise'',
      MakeDirs ''augmented_x/ShiftScaleRotate'',
      MakeDirs ''augmented_y/ShiftScaleRotate'',
      Apply (ShiftScaleRotate 0.02 0.2 5 INTER_LINEAR BORDER_CONSTANT 0 0 1) demo_image
        (Some demo_mask),
      ImWrite ''augmented_x/ShiftScaleRotate/image_1-ShiftScaleRotate.jpg''
        (NDArray [2, 2, 3] [15, 25, 35, 45, 55, 65, 75, 85, 95, 105, 115, 125]),
      ImWrite ''augmented_y/ShiftScaleRotate/mask_1-ShiftScaleRotate.png''
        (NDArray [2, 2] [0, 255, 255, 0]),
      Print ''[5/15] Saved -> ShiftScaleRotate'',
      Print ''[WARNING] Failed to read image: image_7.jpg'',
      Print ''[WARNING] Mask not found: y/mask_2.png'',
      Print completed_message]"

text \<open>A name without the underscore, listed before a good pair.\<close>

definition no_underscore_env :: env where
  "no_underscore_env =
     dataset_env [''photo.jpg'', ''image_1.jpg'']
       [(''X/photo.jpg'', demo_image), (''X/image_1.jpg'', demo_image)]
       [(''y/mask_1.png'', Some demo_mask)]"

text \<open>A good pair, listed before a name without the underscore.\<close>

definition late_fatal_env :: env where
  "late_fatal_env =
     dataset_env [''image_1.jpg'', ''photo.jpg'']
       [(''X/image_1.jpg'', demo_image), (''X/photo.jpg'', demo_image)]
       [(''y/mask_1.png'', Some demo_mask)]"

text \<open>A name without the underscore whose file does not decode.\<close>

definition unreadable_env :: env where
  "unreadable_env = dataset_env [''scan.jpg''] [] []"

text \<open>A mask of three by three for an image of two by two.\<close>

definition mismatch_env :: env where
  "mismatch_env =
     dataset_env [''image_1.jpg''] [(''X/image_1.jpg'', demo_image)]
       [(''y/mask_1.png'', Some (NDArray [3, 3] [0, 0, 0, 0, 255, 0, 0, 0, 0]))]"

text \<open>A mask file that is there and does not decode.\<close>

definition broken_mask_env :: env where
  "broken_mask_env =
     dataset_env [''image_1.jpg''] [(''X/image_1.jpg'', demo_image)] [(''y/mask_1.png'', None)]"

section \<open>Evaluating the example worlds\<close>

lemma dashes: "replicate 50 (CHR ''-'') = ''--------------------------------------------------''"
  by (simp add: numeral_eq_Suc)

lemmas model_defs =
  pipeline_def image_files_def total_outputs_def header_def process_image_def apply_one_def
  out_image_path_def out_mask_path_def progress_line_def base_id_of_def item_def join_def
  endswith_def lower_def lower_char_def drop_last4_def digit_char_def str.simps dashes
  IMAGE_DIR_def MASK_DIR_def OUT_IMAGE_ROOT_def OUT_MASK_ROOT_def IMAGE_EXTENSION_def
  TRANSFORMATIONS_def Let_def

lemmas demo_defs = dataset_env_def demo_aug_def warp_mask_def hw_def demo_image_def demo_mask_def

lemma demo_run: "pipeline demo_env 0 = (demo_trace, Inr \<lparr>counter = 6, rng = 5\<rparr>)"
  by (simp add: demo_env_def demo_trace_def model_defs demo_defs)

lemma demo_files: "image_files demo_env = [''image_1.jpg'', ''image_7.jpg'', ''IMAGE_2_b.JPG'']"
  by (simp add: demo_env_def model_defs demo_defs)

lemma no_underscore_run:
  "pipeline no_underscore_env 0 = (header no_underscore_env, Inl IndexError)"
  by (simp add: no_underscore_env_def model_defs demo_defs)

section \<open>The loops\<close>

lemma write_paths_append [simp]: "write_paths (xs @ ys) = write_paths xs @ write_paths ys"
  by (induction xs rule: write_paths.induct) auto

lemma apply_one_Inr:
  assumes "apply_one e tot n b img m st t = (evs, Inr st')"
  shows "\<exists>a mk. apply_aug e t (rng st) img m = Inr (a, Some mk) \<and>
           evs = [MakeDirs (join OUT_IMAGE_ROOT (class_name t)),
                  MakeDirs (join OUT_MASK_ROOT (class_name t)),
                  Apply t img m,
                  ImWrite (out_image_path n t) a,
                  ImWrite (out_mask_path b t) mk,
                  Print (progress_line (counter st) tot (class_name t))] \<and>
           st' = st\<lparr>counter := counter st + 1, rng := rng st + 1\<rparr>"
  using assms by (auto simp: apply_one_def Let_def split: sum.splits option.splits prod.splits)

lemma apply_one_Inl:
  assumes "apply_one e tot n b img m st t = (evs, Inl err)"
  shows "evs = [MakeDirs (join OUT_IMAGE_ROOT (class_name t)),
                MakeDirs (join OUT_MASK_ROOT (class_name t)),
                Apply t img m] \<or>
         (\<exists>a. apply_aug e t (rng st) img m = Inr (a, None) \<and>
            evs = [MakeDirs (join OUT_IMAGE_ROOT (class_name t)),
                   MakeDirs (join OUT_MASK_ROOT (class_name t)),
                   Apply t img m, ImWrite (out_image_path n t) a])"
  using assms by (auto simp: apply_one_def Let_def split: sum.splits option.splits prod.splits)

lemma transform_loop_Inr_paths:
  "transform_loop e tot n b img m st ts = (evs, Inr st') \<Longrightarrow>
     write_paths evs = concat (map (\<lambda>t. [out_image_path n t, out_mask_path b t]) ts)"
proof (induction ts arbitrary: st evs)
  case Nil
  then show ?case by simp
next
  case (Cons t ts)
  then show ?case
    by (auto split: prod.splits sum.splits dest!: apply_one_Inr)
qed

lemma image_loop_Inr_member:
  "image_loop e tot st names = (evs, Inr st') \<Longrightarrow> name \<in> set names \<Longrightarrow>
     \<exists>st0 evs_n st1. process_image e tot st0 name = (evs_n, Inr st1) \<and> sublist evs_n evs"
proof (induction names arbitrary: st evs)
  case Nil
  then show ?case by simp
next
  case (Cons a names)
  from Cons.prems(1) obtain evs1 st1 evs2 where
    a: "process_image e tot st a = (evs1, Inr st1)" and
    r: "image_loop e tot st1 names = (evs2, Inr st')" and
    evs: "evs = evs1 @ evs2"
    by (auto split: prod.splits sum.splits)
  show ?case
  proof (cases "name = a")
    case True
    have "sublist evs1 (evs1 @ evs2)" by simp
    with a True evs show ?thesis by blast
  next
    case False
    with Cons.prems(2) have "name \<in> set names" by simp
    from Cons.IH[OF r this] obtain st0 evs_n st2 where
      found: "process_image e tot st0 name = (evs_n, Inr st2)" and inner: "sublist evs_n evs2"
      by blast
    from inner have "sublist evs_n (evs1 @ evs2)"
      by (simp add: sublist_appendI sublist_order.order.trans)
    with found evs show ?thesis by blast
  qed
qed

section \<open>Paths\<close>

lemma stem_not_abs:
  assumes "CHR ''/'' \<notin> set n"
  shows "hd (take k n @ CHR ''-'' # r) \<noteq> CHR ''/''"
proof (cases "take k n")
  case Nil
  then have "hd (take k n @ CHR ''-'' # r) = CHR ''-''" by (simp only: append_Nil list.sel)
  then show ?thesis by simp
next
  case (Cons x xs)
  then have "x \<in> set (take k n)" by simp
  then have "x \<in> set n" by (rule in_set_takeD)
  with assms show ?thesis using Cons by auto
qed

lemma out_image_path_plain:
  assumes "CHR ''/'' \<notin> set n"
  shows "out_image_path n t =
     ''augmented_x/'' @ class_name t @ ''/'' @ drop_last4 n @ ''-'' @ class_name t @ ''.jpg''"
  using stem_not_abs[OF assms]
  by (cases t) (simp_all add: out_image_path_def join_def OUT_IMAGE_ROOT_def Let_def drop_last4_def)

lemma out_mask_path_plain:
  "out_mask_path b t =
     ''augmented_y/'' @ class_name t @ ''/mask_'' @ b @ ''-'' @ class_name t @ ''.png''"
  by (cases t) (simp_all add: out_mask_path_def join_def OUT_MASK_ROOT_def Let_def)

lemma image_path_plain:
  "CHR ''/'' \<notin> set n \<Longrightarrow> join IMAGE_DIR n = ''X/'' @ n"
  by (cases n) (auto simp: join_def IMAGE_DIR_def)

lemma mask_join [simp]: "join MASK_DIR (CHR ''m'' # r) = CHR ''y'' # CHR ''/'' # CHR ''m'' # r"
  by (simp add: join_def MASK_DIR_def)

lemma process_image_Inr_cases:
  assumes "process_image e tot st n = (evs, Inr st')"
  shows "(cv2_imread e (join IMAGE_DIR n) = None \<and> st' = st \<and>
            evs = [Print (''[WARNING] Failed to read image: '' @ n)]) \<or>
         (\<exists>img b. cv2_imread e (join IMAGE_DIR n) = Some img \<and> base_id_of n = Inr b \<and>
            ((\<not> os_path_exists e (''y/mask_'' @ b @ ''.png'') \<and> st' = st \<and>
              evs = [Print (''[WARNING] Mask not found: '' @ ''y/mask_'' @ b @ ''.png'')]) \<or>
             (os_path_exists e (''y/mask_'' @ b @ ''.png'') \<and>
              transform_loop e tot n b img (cv2_imread_gray e (''y/mask_'' @ b @ ''.png'')) st
                TRANSFORMATIONS = (evs, Inr st'))))"
proof (cases "cv2_imread e (join IMAGE_DIR n)")
  case None
  with assms show ?thesis by (simp add: process_image_def)
next
  case (Some img)
  show ?thesis
  proof (cases "base_id_of n")
    case (Inl err)
    with assms Some show ?thesis by (simp add: process_image_def)
  next
    case (Inr b)
    show ?thesis
    proof (cases "os_path_exists e (''y/mask_'' @ b @ ''.png'')")
      case True
      with assms Some Inr
      have "transform_loop e tot n b img (cv2_imread_gray e (''y/mask_'' @ b @ ''.png'')) st
              TRANSFORMATIONS = (evs, Inr st')"
        by (simp add: process_image_def Let_def)
      with Some Inr True show ?thesis by blast
    next
      case False
      with assms Some Inr
      have "st' = st \<and> evs = [Print (''[WARNING] Mask not found: '' @ ''y/mask_'' @ b @ ''.png'')]"
        by (simp add: process_image_def Let_def)
      with Some Inr False show ?thesis by blast
    qed
  qed
qed

section \<open>Outputs per image\<close>

lemma image_loop_reaches:
  assumes "image_loop e tot st before = (evs0, Inr st0)"
    and "process_image e tot st0 n = (evs_n, r)"
  shows "\<exists>tail. fst (image_loop e tot st (before @ n # rest)) = evs0 @ evs_n @ tail"
  using assms(1)
proof (induction before arbitrary: st evs0)
  case Nil
  then have "evs0 = []" "st0 = st" by simp_all
  with assms(2) show ?case
    by (cases r) (auto split: prod.splits)
next
  case (Cons a before)
  from Cons.prems obtain evs1 st1 evs2 where
    a: "process_image e tot st a = (evs1, Inr st1)" and
    l: "image_loop e tot st1 before = (evs2, Inr st0)" and
    evs: "evs0 = evs1 @ evs2"
    by (auto split: prod.splits sum.splits)
  from Cons.IH[OF l] obtain tail where
    t: "fst (image_loop e tot st1 (before @ n # rest)) = evs2 @ evs_n @ tail" by blast
  obtain evs3 r3 where l3: "image_loop e tot st1 (before @ n # rest) = (evs3, r3)"
    by (cases "image_loop e tot st1 (before @ n # rest)")
  with t have "evs3 = evs2 @ evs_n @ tail" by simp
  with a l3 evs have "fst (image_loop e tot st ((a # before) @ n # rest)) = evs0 @ evs_n @ tail"
    by simp
  then show ?case by blast
qed

lemma pipeline_reaches:
  assumes "image_files e = before @ n # rest"
    and "image_loop e (total_outputs e) \<lparr>counter = 1, rng = seed\<rparr> before = (evs0, Inr st0)"
    and "process_image e (total_outputs e) st0 n = (evs_n, r)"
  shows "\<exists>tail. fst (pipeline e seed) = header e @ evs0 @ evs_n @ tail"
proof -
  from image_loop_reaches[OF assms(2,3), of rest] obtain tail where
    t: "fst (image_loop e (total_outputs e) \<lparr>counter = 1, rng = seed\<rparr> (image_files e)) =
          evs0 @ evs_n @ tail"
    unfolding assms(1) by blast
  obtain evs r' where
    l: "image_loop e (total_outputs e) \<lparr>counter = 1, rng = seed\<rparr> (image_files e) = (evs, r')"
    by (cases "image_loop e (total_outputs e) \<lparr>counter = 1, rng = seed\<rparr> (image_files e)")
  with t have evs: "evs = evs0 @ evs_n @ tail" by simp
  show ?thesis
  proof (cases r')
    case (Inl err)
    with l evs have "fst (pipeline e seed) = header e @ evs0 @ evs_n @ tail"
      by (simp add: pipeline_def)
    then show ?thesis by blast
  next
    case (Inr st')
    with l evs have "fst (pipeline e seed) =
        header e @ evs0 @ evs_n @ (tail @ [Print completed_message])"
      by (simp add: pipeline_def)
    then show ?thesis by blast
  qed
qed

text \<open>
  C1, as amended. Take a listed image name that is a plain directory entry, whose image
  decodes and whose expected mask file exists, in a run that no fatal error ends before the
  processing of that name is complete: the names listed before it are gone through, and its
  own processing ends without an error. Then the events of that processing are part of the
  run, whatever happens to the names after it, and they write exactly ten files: for each
  of the five transforms in turn the image at
  \<^verbatim>\<open>augmented_x/<TransformName>/<image_stem>-<TransformName>.jpg\<close> and the mask at
  \<^verbatim>\<open>augmented_y/<TransformName>/mask_<id>-<TransformName>.png\<close>.
\<close>

theorem outputs_per_image:
  assumes listed: "image_files e = before @ image_name # rest"
    and reached:
      "image_loop e (total_outputs e) \<lparr>counter = 1, rng = seed\<rparr> before = (evs0, Inr st0)"
    and processed: "process_image e (total_outputs e) st0 image_name = (evs_n, Inr st1)"
    and component: "CHR ''/'' \<notin> set image_name"
    and decodes: "cv2_imread e (''X/'' @ image_name) = Some img"
    and id: "base_id_of image_name = Inr base_id"
    and mask_exists: "os_path_exists e (''y/mask_'' @ base_id @ ''.png'')"
  shows "(\<exists>tail. fst (pipeline e seed) = header e @ evs0 @ evs_n @ tail) \<and>
         write_paths evs_n =
           concat (map (\<lambda>T. [''augmented_x/'' @ T @ ''/'' @ drop_last4 image_name @ ''-'' @ T @ ''.jpg'',
                              ''augmented_y/'' @ T @ ''/mask_'' @ base_id @ ''-'' @ T @ ''.png''])
                    [''RandomBrightnessContrast'', ''Defocus'', ''GlassBlur'', ''ISONoise'',
                     ''ShiftScaleRotate''])"
proof -
  from process_image_Inr_cases[OF processed] decodes id mask_exists
  have tl: "transform_loop e (total_outputs e) image_name base_id img
              (cv2_imread_gray e (''y/mask_'' @ base_id @ ''.png'')) st0 TRANSFORMATIONS
            = (evs_n, Inr st1)"
    unfolding image_path_plain[OF component] by auto
  have "write_paths evs_n =
      concat (map (\<lambda>t. [out_image_path image_name t, out_mask_path base_id t]) TRANSFORMATIONS)"
    by (rule transform_loop_Inr_paths[OF tl])
  then have wp: "write_paths evs_n =
             concat (map (\<lambda>T. [''augmented_x/'' @ T @ ''/'' @ drop_last4 image_name @ ''-'' @ T @ ''.jpg'',
                                ''augmented_y/'' @ T @ ''/mask_'' @ base_id @ ''-'' @ T @ ''.png''])
                      [''RandomBrightnessContrast'', ''Defocus'', ''GlassBlur'', ''ISONoise'',
                       ''ShiftScaleRotate''])"
    by (simp add: TRANSFORMATIONS_def out_image_path_plain[OF component] out_mask_path_plain)
  from pipeline_reaches[OF listed reached processed] wp show ?thesis by (rule conjI)
qed

text \<open>
  The theorem at the good pair of a run that dies on the name listed after it: the ten
  files are written before the run ends with the error.
\<close>

lemma late_fatal_files: "image_files late_fatal_env = [] @ ''image_1.jpg'' # [''photo.jpg'']"
  by (simp add: late_fatal_env_def model_defs demo_defs)

lemma late_fatal_first:
  "snd (process_image late_fatal_env 10 \<lparr>counter = 1, rng = 0\<rparr> ''image_1.jpg'') =
     Inr \<lparr>counter = 6, rng = 5\<rparr>"
  by (simp add: late_fatal_env_def model_defs demo_defs)

lemma late_fatal_total: "total_outputs late_fatal_env = 10"
  by (simp add: late_fatal_env_def model_defs demo_defs)

lemma late_fatal_end: "snd (pipeline late_fatal_env seed) = Inl IndexError"
  by (simp add: late_fatal_env_def model_defs demo_defs)

theorem outputs_per_image_witness:
  "image_files late_fatal_env = [''image_1.jpg'', ''photo.jpg''] \<and>
   CHR ''/'' \<notin> set ''image_1.jpg'' \<and>
   cv2_imread late_fatal_env ''X/image_1.jpg'' = Some demo_image \<and>
   base_id_of ''image_1.jpg'' = Inr ''1'' \<and>
   os_path_exists late_fatal_env ''y/mask_1.png'' \<and>
   snd (process_image late_fatal_env 10 \<lparr>counter = 1, rng = 0\<rparr> ''image_1.jpg'') =
     Inr \<lparr>counter = 6, rng = 5\<rparr> \<and>
   snd (pipeline late_fatal_env 0) = Inl IndexError \<and>
   (\<exists>tail. fst (pipeline late_fatal_env 0) =
      header late_fatal_env @
      fst (process_image late_fatal_env 10 \<lparr>counter = 1, rng = 0\<rparr> ''image_1.jpg'') @ tail) \<and>
   write_paths (fst (process_image late_fatal_env 10 \<lparr>counter = 1, rng = 0\<rparr> ''image_1.jpg'')) =
     [''augmented_x/RandomBrightnessContrast/image_1-RandomBrightnessContrast.jpg'',
      ''augmented_y/RandomBrightnessContrast/mask_1-RandomBrightnessContrast.png'',
      ''augmented_x/Defocus/image_1-Defocus.jpg'',
      ''augmented_y/Defocus/mask_1-Defocus.png'',
      ''augmented_x/GlassBlur/image_1-GlassBlur.jpg'',
      ''augmented_y/GlassBlur/mask_1-GlassBlur.png'',
      ''augmented_x/ISONoise/image_1-ISONoise.jpg'',
      ''augmented_y/ISONoise/mask_1-ISONoise.png'',
      ''augmented_x/ShiftScaleRotate/image_1-ShiftScaleRotate.jpg'',
      ''augmented_y/ShiftScaleRotate/mask_1-ShiftScaleRotate.png'']"
proof -
  have h1: "image_loop late_fatal_env (total_outputs late_fatal_env) \<lparr>counter = 1, rng = 0\<rparr> [] =
              ([], Inr \<lparr>counter = 1, rng = 0\<rparr>)"
    by simp
  have h2: "process_image late_fatal_env (total_outputs late_fatal_env) \<lparr>counter = 1, rng = 0\<rparr>
              ''image_1.jpg'' =
            (fst (process_image late_fatal_env 10 \<lparr>counter = 1, rng = 0\<rparr> ''image_1.jpg''),
             Inr \<lparr>counter = 6, rng = 5\<rparr>)"
    unfolding late_fatal_total using late_fatal_first by (simp add: prod_eq_iff)
  have h3: "CHR ''/'' \<notin> set ''image_1.jpg''" by simp
  have h4: "cv2_imread late_fatal_env (''X/'' @ ''image_1.jpg'') = Some demo_image"
    by (simp add: late_fatal_env_def dataset_env_def)
  have h5: "base_id_of ''image_1.jpg'' = Inr ''1''" by (simp add: base_id_of_def item_def)
  have h6: "os_path_exists late_fatal_env (''y/mask_'' @ ''1'' @ ''.png'')"
    by (simp add: late_fatal_env_def dataset_env_def)
  from outputs_per_image[OF late_fatal_files h1 h2 h3 h4 h5 h6]
    late_fatal_files late_fatal_first late_fatal_end[of 0] h4 h5 h6
  show ?thesis by (simp add: drop_last4_def)
qed

text \<open>
  C1 as stated fails: here \<^verbatim>\<open>image_1.jpg\<close> decodes and its mask exists, yet the run
  dies on the name listed before it and writes nothing.
\<close>

theorem outputs_per_image_counterexample:
  "''image_1.jpg'' \<in> set (image_files no_underscore_env) \<and>
   cv2_imread no_underscore_env ''X/image_1.jpg'' = Some demo_image \<and>
   base_id_of ''image_1.jpg'' = Inr ''1'' \<and>
   os_path_exists no_underscore_env ''y/mask_1.png'' \<and>
   snd (pipeline no_underscore_env 0) = Inl IndexError \<and>
   write_paths (fst (pipeline no_underscore_env 0)) = []"
  by (simp add: no_underscore_run) (simp add: no_underscore_env_def model_defs demo_defs)

section \<open>Skipping\<close>

lemma transform_loop_Inr_writes:
  assumes "transform_loop e tot n b img m st TRANSFORMATIONS = (evs, Inr st')"
  shows "write_paths evs \<noteq> []"
  using transform_loop_Inr_paths[OF assms] by (simp add: TRANSFORMATIONS_def)

lemma process_image_unreadable:
  "cv2_imread e (join IMAGE_DIR n) = None \<Longrightarrow>
     process_image e tot st n = ([Print (''[WARNING] Failed to read image: '' @ n)], Inr st)"
  by (simp add: process_image_def)

lemma process_image_no_mask:
  "cv2_imread e (join IMAGE_DIR n) = Some img \<Longrightarrow> base_id_of n = Inr b \<Longrightarrow>
   \<not> os_path_exists e (''y/mask_'' @ b @ ''.png'') \<Longrightarrow>
     process_image e tot st n = ([Print (''[WARNING] Mask not found: y/mask_'' @ b @ ''.png'')], Inr st)"
  by (simp add: process_image_def Let_def)

lemma process_image_skipped:
  assumes "process_image e tot st n = (evs, Inr st')" and "write_paths evs = []"
  shows "cv2_imread e (join IMAGE_DIR n) = None \<or>
         (\<exists>b. base_id_of n = Inr b \<and> \<not> os_path_exists e (''y/mask_'' @ b @ ''.png''))"
  using process_image_Inr_cases[OF assms(1)] assms(2) transform_loop_Inr_writes
  by blast

text \<open>
  C4. A file that does not decode, and a decodable file whose expected mask is absent, are
  each answered by one warning line and nothing else, with the state as it was; an image
  that passes without output and without ending the run is one of these two; and the loop
  goes on with the next name.
\<close>

theorem skip_and_continue:
  "(cv2_imread e (join IMAGE_DIR n) = None \<longrightarrow>
      process_image e tot st n = ([Print (''[WARNING] Failed to read image: '' @ n)], Inr st)) \<and>
   (cv2_imread e (join IMAGE_DIR n) = Some img \<and> base_id_of n = Inr b \<and>
    \<not> os_path_exists e (''y/mask_'' @ b @ ''.png'') \<longrightarrow>
      process_image e tot st n =
        ([Print (''[WARNING] Mask not found: y/mask_'' @ b @ ''.png'')], Inr st)) \<and>
   (process_image e tot st n = (evs, Inr st') \<and> write_paths evs = [] \<longrightarrow>
      cv2_imread e (join IMAGE_DIR n) = None \<or>
      (\<exists>b'. base_id_of n = Inr b' \<and> \<not> os_path_exists e (''y/mask_'' @ b' @ ''.png''))) \<and>
   (process_image e tot st n = ([Print w], Inr st) \<longrightarrow>
      image_loop e tot st (n # rest) =
        (Print w # fst (image_loop e tot st rest), snd (image_loop e tot st rest)))"
proof (intro conjI impI)
  assume "cv2_imread e (join IMAGE_DIR n) = None"
  then show "process_image e tot st n = ([Print (''[WARNING] Failed to read image: '' @ n)], Inr st)"
    by (rule process_image_unreadable)
next
  assume "cv2_imread e (join IMAGE_DIR n) = Some img \<and> base_id_of n = Inr b \<and>
          \<not> os_path_exists e (''y/mask_'' @ b @ ''.png'')"
  then show "process_image e tot st n =
        ([Print (''[WARNING] Mask not found: y/mask_'' @ b @ ''.png'')], Inr st)"
    using process_image_no_mask by blast
next
  assume "process_image e tot st n = (evs, Inr st') \<and> write_paths evs = []"
  then show "cv2_imread e (join IMAGE_DIR n) = None \<or>
      (\<exists>b'. base_id_of n = Inr b' \<and> \<not> os_path_exists e (''y/mask_'' @ b' @ ''.png''))"
    using process_image_skipped by blast
next
  assume "process_image e tot st n = ([Print w], Inr st)"
  then show "image_loop e tot st (n # rest) =
        (Print w # fst (image_loop e tot st rest), snd (image_loop e tot st rest))"
    by (simp split: prod.splits)
qed

lemma demo_unreadable: "cv2_imread demo_env (join IMAGE_DIR ''image_7.jpg'') = None"
  by (simp add: demo_env_def dataset_env_def join_def IMAGE_DIR_def)

lemma demo_upper:
  "cv2_imread demo_env (join IMAGE_DIR ''IMAGE_2_b.JPG'') = Some demo_image \<and>
   base_id_of ''IMAGE_2_b.JPG'' = Inr ''2'' \<and>
   \<not> os_path_exists demo_env (''y/mask_'' @ ''2'' @ ''.png'')"
  by (simp add: demo_env_def dataset_env_def join_def IMAGE_DIR_def base_id_of_def item_def)

theorem skip_and_continue_witness:
  "cv2_imread demo_env (join IMAGE_DIR ''image_7.jpg'') = None \<and>
   process_image demo_env 15 \<lparr>counter = 6, rng = 5\<rparr> ''image_7.jpg'' =
     ([Print ''[WARNING] Failed to read image: image_7.jpg''], Inr \<lparr>counter = 6, rng = 5\<rparr>) \<and>
   image_loop demo_env 15 \<lparr>counter = 6, rng = 5\<rparr> [''image_7.jpg'', ''IMAGE_2_b.JPG''] =
     ([Print ''[WARNING] Failed to read image: image_7.jpg'',
       Print ''[WARNING] Mask not found: y/mask_2.png''], Inr \<lparr>counter = 6, rng = 5\<rparr>) \<and>
   cv2_imread demo_env (join IMAGE_DIR ''IMAGE_2_b.JPG'') = Some demo_image \<and>
   base_id_of ''IMAGE_2_b.JPG'' = Inr ''2'' \<and>
   \<not> os_path_exists demo_env ''y/mask_2.png'' \<and>
   process_image demo_env 15 \<lparr>counter = 6, rng = 5\<rparr> ''IMAGE_2_b.JPG'' =
     ([Print ''[WARNING] Mask not found: y/mask_2.png''], Inr \<lparr>counter = 6, rng = 5\<rparr>)"
proof -
  let ?st = "\<lparr>counter = 6, rng = 5\<rparr>"
  note a = skip_and_continue[of demo_env "''image_7.jpg''" 15 ?st demo_image "''2''"
      "[Print ''[WARNING] Failed to read image: image_7.jpg'']" ?st
      "''[WARNING] Failed to read image: image_7.jpg''" "[''IMAGE_2_b.JPG'']"]
  note b = skip_and_continue[of demo_env "''IMAGE_2_b.JPG''" 15 ?st demo_image "''2''"
      "[Print ''[WARNING] Mask not found: y/mask_2.png'']" ?st
      "''[WARNING] Mask not found: y/mask_2.png''" "[]"]
  from a demo_unreadable
  have a1: "process_image demo_env 15 ?st ''image_7.jpg'' =
     ([Print ''[WARNING] Failed to read image: image_7.jpg''], Inr ?st)" by simp
  from b demo_upper
  have b1: "process_image demo_env 15 ?st ''IMAGE_2_b.JPG'' =
     ([Print ''[WARNING] Mask not found: y/mask_2.png''], Inr ?st)" by simp
  from b b1 have b2: "image_loop demo_env 15 ?st [''IMAGE_2_b.JPG''] =
     ([Print ''[WARNING] Mask not found: y/mask_2.png''], Inr ?st)" by simp
  from a a1 b2 have a2: "image_loop demo_env 15 ?st [''image_7.jpg'', ''IMAGE_2_b.JPG''] =
     ([Print ''[WARNING] Failed to read image: image_7.jpg'',
       Print ''[WARNING] Mask not found: y/mask_2.png''], Inr ?st)" by simp
  from a1 a2 b1 demo_unreadable demo_upper show ?thesis by simp
qed

section \<open>Names without the delimiter\<close>

lemma split_no_sep: "c \<notin> set s \<Longrightarrow> split c s = [s]"
  by (induction s) auto

lemma base_id_no_underscore: "CHR ''_'' \<notin> set n \<Longrightarrow> base_id_of n = Inl IndexError"
  by (simp add: base_id_of_def split_no_sep item_def)

lemma image_loop_append:
  "image_loop e tot st (xs @ ys) =
     (case image_loop e tot st xs of
        (evs, Inl err) \<Rightarrow> (evs, Inl err)
      | (evs, Inr st') \<Rightarrow> (case image_loop e tot st' ys of (evs', r) \<Rightarrow> (evs @ evs', r)))"
  by (induction xs arbitrary: st) (auto split: prod.splits sum.splits)

text \<open>
  C5, as amended. A discovered name without the underscore whose image decodes is not
  skipped: the id extraction raises \<^verbatim>\<open>IndexError\<close>, nothing is printed or written for it,
  the names after it are never looked at, and the run ends with that error.
\<close>

theorem no_underscore_fatal:
  assumes "CHR ''_'' \<notin> set n" and "cv2_imread e (join IMAGE_DIR n) = Some img"
  shows "process_image e tot st n = ([], Inl IndexError) \<and>
         image_loop e tot st (n # rest) = ([], Inl IndexError) \<and>
         (image_files e = before @ n # rest \<and>
          image_loop e (total_outputs e) \<lparr>counter = 1, rng = seed\<rparr> before = (evs, Inr st) \<longrightarrow>
            pipeline e seed = (header e @ evs, Inl IndexError))"
proof -
  have one: "process_image e tot st n = ([], Inl IndexError)" for tot st
    using assms by (simp add: process_image_def base_id_no_underscore)
  then have loop: "image_loop e tot st (n # rest) = ([], Inl IndexError)" for tot st
    by simp
  show ?thesis
    using one loop by (auto simp: pipeline_def image_loop_append)
qed

lemma no_underscore_files: "image_files no_underscore_env = [] @ ''photo.jpg'' # [''image_1.jpg'']"
  by (simp add: no_underscore_env_def model_defs demo_defs)

theorem no_underscore_fatal_witness:
  "CHR ''_'' \<notin> set ''photo.jpg'' \<and>
   cv2_imread no_underscore_env (join IMAGE_DIR ''photo.jpg'') = Some demo_image \<and>
   image_files no_underscore_env = ''photo.jpg'' # [''image_1.jpg''] \<and>
   process_image no_underscore_env 10 \<lparr>counter = 1, rng = 0\<rparr> ''photo.jpg'' = ([], Inl IndexError) \<and>
   pipeline no_underscore_env 0 = (header no_underscore_env, Inl IndexError)"
proof -
  have h1: "CHR ''_'' \<notin> set ''photo.jpg''" by simp
  have h2: "cv2_imread no_underscore_env (join IMAGE_DIR ''photo.jpg'') = Some demo_image"
    by (simp add: no_underscore_env_def dataset_env_def join_def IMAGE_DIR_def)
  from no_underscore_fatal[OF h1 h2, of 10 "\<lparr>counter = 1, rng = 0\<rparr>" "[''image_1.jpg'']" "[]" 0 "[]"]
    no_underscore_files h2
  show ?thesis by simp
qed

text \<open>
  C5 as stated fails: \<^verbatim>\<open>scan.jpg\<close> has no underscore and is skipped with a warning, since
  it does not decode; the run completes.
\<close>

theorem no_underscore_fatal_counterexample:
  "''scan.jpg'' \<in> set (image_files unreadable_env) \<and>
   CHR ''_'' \<notin> set ''scan.jpg'' \<and>
   pipeline unreadable_env 0 =
     (header unreadable_env @
        [Print ''[WARNING] Failed to read image: scan.jpg'', Print completed_message],
      Inr \<lparr>counter = 1, rng = 0\<rparr>)"
  by (simp add: unreadable_env_def model_defs demo_defs)

section \<open>The derived id\<close>

lemma split_sep: "c \<notin> set a \<Longrightarrow> split c (a @ c # r) = a # split c r"
  by (induction a) auto

lemma split_first: "\<exists>rest. split c s = takeWhile (\<lambda>x. x \<noteq> c) s # rest"
  by (induction s) auto

lemma item_first_split: "item (split c s) 0 = Inr (takeWhile (\<lambda>x. x \<noteq> c) s)"
proof -
  obtain rest where "split c s = takeWhile (\<lambda>x. x \<noteq> c) s # rest"
    using split_first by blast
  then show ?thesis by (simp add: item_def)
qed

lemma base_id_second:
  assumes "CHR ''_'' \<notin> set a"
  shows "base_id_of (a @ CHR ''_'' # s) =
           Inr (takeWhile (\<lambda>x. x \<noteq> CHR ''.'') (takeWhile (\<lambda>x. x \<noteq> CHR ''_'') s))"
proof -
  obtain rest where r: "split (CHR ''_'') s = takeWhile (\<lambda>x. x \<noteq> CHR ''_'') s # rest"
    using split_first by blast
  have "split (CHR ''_'') (a @ CHR ''_'' # s) = a # takeWhile (\<lambda>x. x \<noteq> CHR ''_'') s # rest"
    using split_sep[OF assms] r by simp
  then have "item (split (CHR ''_'') (a @ CHR ''_'' # s)) 1 = Inr (takeWhile (\<lambda>x. x \<noteq> CHR ''_'') s)"
    by (simp add: item_def)
  then show ?thesis
    by (simp add: base_id_of_def item_first_split)
qed

lemma takeWhile_whole: "c \<notin> set b \<Longrightarrow> takeWhile (\<lambda>x. x \<noteq> c) (b @ c # r) = b"
  by (induction b) auto

lemma takeWhile_all: "c \<notin> set b \<Longrightarrow> takeWhile (\<lambda>x. x \<noteq> c) b = b"
  by (induction b) auto

lemma drop_last4_append: "4 \<le> length c \<Longrightarrow> drop_last4 (pre @ c) = pre @ drop_last4 c"
  by (simp add: drop_last4_def)

text \<open>
  C10. For a name \<open>a_b_c\<close> with more than one underscore the id is the part \<open>b\<close> between
  the first and the second underscore, cut at its first dot; the name \<open>a_b\<close> gets the same
  id. The mask asked for is \<^verbatim>\<open>y/mask_<id>.png\<close> and the mask is written to
  \<^verbatim>\<open>augmented_y/<TransformName>/mask_<id>-<TransformName>.png\<close>, while the image is
  written under the whole stem of its name,
  \<^verbatim>\<open>augmented_x/<TransformName>/a_b_<stem of c>-<TransformName>.jpg\<close>; these are the
  paths the processing of the name writes. So two different names can be paired with one
  mask file.
\<close>

theorem id_is_second_segment:
  assumes "CHR ''_'' \<notin> set a" and "CHR ''_'' \<notin> set b"
  shows "base_id_of (a @ ''_'' @ b @ ''_'' @ c) = Inr (takeWhile (\<lambda>x. x \<noteq> CHR ''.'') b) \<and>
         base_id_of (a @ ''_'' @ b) = Inr (takeWhile (\<lambda>x. x \<noteq> CHR ''.'') b) \<and>
         (4 \<le> length c \<longrightarrow>
            drop_last4 (a @ ''_'' @ b @ ''_'' @ c) = a @ ''_'' @ b @ ''_'' @ drop_last4 c) \<and>
         (4 \<le> length c \<and> CHR ''/'' \<notin> set (a @ ''_'' @ b @ ''_'' @ c) \<longrightarrow>
            out_image_path (a @ ''_'' @ b @ ''_'' @ c) t =
              ''augmented_x/'' @ class_name t @ ''/'' @ a @ ''_'' @ b @ ''_'' @ drop_last4 c @
                ''-'' @ class_name t @ ''.jpg'') \<and>
         out_mask_path (takeWhile (\<lambda>x. x \<noteq> CHR ''.'') b) t =
           ''augmented_y/'' @ class_name t @ ''/mask_'' @ takeWhile (\<lambda>x. x \<noteq> CHR ''.'') b @
             ''-'' @ class_name t @ ''.png'' \<and>
         (cv2_imread e (join IMAGE_DIR (a @ ''_'' @ b @ ''_'' @ c)) = Some img \<longrightarrow>
            process_image e tot st (a @ ''_'' @ b @ ''_'' @ c) =
              (if \<not> os_path_exists e (''y/mask_'' @ takeWhile (\<lambda>x. x \<noteq> CHR ''.'') b @ ''.png'')
               then ([Print (''[WARNING] Mask not found: y/mask_'' @
                               takeWhile (\<lambda>x. x \<noteq> CHR ''.'') b @ ''.png'')], Inr st)
               else transform_loop e tot (a @ ''_'' @ b @ ''_'' @ c)
                      (takeWhile (\<lambda>x. x \<noteq> CHR ''.'') b) img
                      (cv2_imread_gray e
                         (''y/mask_'' @ takeWhile (\<lambda>x. x \<noteq> CHR ''.'') b @ ''.png''))
                      st TRANSFORMATIONS)) \<and>
         (cv2_imread e (join IMAGE_DIR (a @ ''_'' @ b @ ''_'' @ c)) = Some img \<and>
          os_path_exists e (''y/mask_'' @ takeWhile (\<lambda>x. x \<noteq> CHR ''.'') b @ ''.png'') \<and>
          process_image e tot st (a @ ''_'' @ b @ ''_'' @ c) = (evs, Inr st') \<longrightarrow>
            write_paths evs =
              concat (map (\<lambda>t. [out_image_path (a @ ''_'' @ b @ ''_'' @ c) t,
                                 out_mask_path (takeWhile (\<lambda>x. x \<noteq> CHR ''.'') b) t])
                        TRANSFORMATIONS))"
proof -
  let ?n = "a @ ''_'' @ b @ ''_'' @ c"
  let ?id = "takeWhile (\<lambda>x. x \<noteq> CHR ''.'') b"
  have long: "base_id_of ?n = Inr ?id"
    using base_id_second[OF assms(1), of "b @ CHR ''_'' # c"] takeWhile_whole[OF assms(2)]
    by simp
  have short: "base_id_of (a @ ''_'' @ b) = Inr ?id"
    using base_id_second[OF assms(1), of b] takeWhile_all[OF assms(2)]
    by simp
  have stem: "4 \<le> length c \<longrightarrow> drop_last4 ?n = a @ ''_'' @ b @ ''_'' @ drop_last4 c"
    using drop_last4_append[of c "a @ ''_'' @ b @ ''_''"] by simp
  have img_path: "4 \<le> length c \<and> CHR ''/'' \<notin> set ?n \<longrightarrow>
            out_image_path ?n t =
              ''augmented_x/'' @ class_name t @ ''/'' @ a @ ''_'' @ b @ ''_'' @ drop_last4 c @
                ''-'' @ class_name t @ ''.jpg''"
  proof (intro impI)
    assume h: "4 \<le> length c \<and> CHR ''/'' \<notin> set ?n"
    then have s: "drop_last4 ?n = a @ ''_'' @ b @ ''_'' @ drop_last4 c" using stem by blast
    from h have "CHR ''/'' \<notin> set ?n" by blast
    from out_image_path_plain[OF this, of t] show "out_image_path ?n t =
              ''augmented_x/'' @ class_name t @ ''/'' @ a @ ''_'' @ b @ ''_'' @ drop_last4 c @
                ''-'' @ class_name t @ ''.jpg''"
      unfolding s by simp
  qed
  have mask_path: "out_mask_path ?id t =
           ''augmented_y/'' @ class_name t @ ''/mask_'' @ ?id @ ''-'' @ class_name t @ ''.png''"
    by (rule out_mask_path_plain)
  have proc: "cv2_imread e (join IMAGE_DIR ?n) = Some img \<longrightarrow>
            process_image e tot st ?n =
              (if \<not> os_path_exists e (''y/mask_'' @ ?id @ ''.png'')
               then ([Print (''[WARNING] Mask not found: y/mask_'' @ ?id @ ''.png'')], Inr st)
               else transform_loop e tot ?n ?id img
                      (cv2_imread_gray e (''y/mask_'' @ ?id @ ''.png'')) st TRANSFORMATIONS)"
    using long by (simp add: process_image_def Let_def)
  have written: "cv2_imread e (join IMAGE_DIR ?n) = Some img \<and>
          os_path_exists e (''y/mask_'' @ ?id @ ''.png'') \<and>
          process_image e tot st ?n = (evs, Inr st') \<longrightarrow>
            write_paths evs =
              concat (map (\<lambda>t. [out_image_path ?n t, out_mask_path ?id t]) TRANSFORMATIONS)"
  proof (intro impI)
    assume h: "cv2_imread e (join IMAGE_DIR ?n) = Some img \<and>
          os_path_exists e (''y/mask_'' @ ?id @ ''.png'') \<and>
          process_image e tot st ?n = (evs, Inr st')"
    with proc have "transform_loop e tot ?n ?id img
                      (cv2_imread_gray e (''y/mask_'' @ ?id @ ''.png'')) st TRANSFORMATIONS =
                    (evs, Inr st')"
      by simp
    then show "write_paths evs =
              concat (map (\<lambda>t. [out_image_path ?n t, out_mask_path ?id t]) TRANSFORMATIONS)"
      by (rule transform_loop_Inr_paths)
  qed
  show ?thesis
    by (intro conjI long short stem img_path mask_path proc written)
qed

text \<open>
  The theorem at \<^verbatim>\<open>image_1_copy.jpg\<close> and at \<^verbatim>\<open>image_1.jpg\<close>: one id and one mask output
  path for both names, two image output paths.
\<close>

theorem id_is_second_segment_witness:
  "CHR ''_'' \<notin> set ''image'' \<and> CHR ''_'' \<notin> set ''1'' \<and> CHR ''_'' \<notin> set ''1.jpg'' \<and>
   base_id_of ''image_1_copy.jpg'' = Inr ''1'' \<and>
   base_id_of ''image_1.jpg'' = Inr ''1'' \<and>
   drop_last4 ''image_1_copy.jpg'' = ''image_1_copy'' \<and>
   ''image_1_copy.jpg'' \<noteq> ''image_1.jpg'' \<and>
   out_image_path ''image_1_copy.jpg'' (hd TRANSFORMATIONS) =
     ''augmented_x/RandomBrightnessContrast/image_1_copy-RandomBrightnessContrast.jpg'' \<and>
   out_image_path ''image_1.jpg'' (hd TRANSFORMATIONS) =
     ''augmented_x/RandomBrightnessContrast/image_1-RandomBrightnessContrast.jpg'' \<and>
   out_mask_path ''1'' (hd TRANSFORMATIONS) =
     ''augmented_y/RandomBrightnessContrast/mask_1-RandomBrightnessContrast.png''"
proof -
  note long = id_is_second_segment[of "''image''" "''1''" "''copy.jpg''" "hd TRANSFORMATIONS"
      demo_env demo_image 15 "\<lparr>counter = 1, rng = 0\<rparr>" "[]" "\<lparr>counter = 1, rng = 0\<rparr>"]
  note short = id_is_second_segment[of "''image''" "''1.jpg''" "[]" "hd TRANSFORMATIONS"
      demo_env demo_image 15 "\<lparr>counter = 1, rng = 0\<rparr>" "[]" "\<lparr>counter = 1, rng = 0\<rparr>"]
  have plain: "out_image_path ''image_1.jpg'' (hd TRANSFORMATIONS) =
     ''augmented_x/RandomBrightnessContrast/image_1-RandomBrightnessContrast.jpg''"
    by (simp add: model_defs)
  from long short plain show ?thesis
    by (simp add: drop_last4_def TRANSFORMATIONS_def)
qed

section \<open>The transform list\<close>

lemma applied_append [simp]: "applied (xs @ ys) = applied xs @ applied ys"
  by (induction xs rule: applied.induct) auto

lemma apply_one_applied:
  "apply_one e tot n b img m st t = (evs, r) \<Longrightarrow> applied evs = [t]"
  by (auto simp: apply_one_def Let_def split: sum.splits option.splits prod.splits)

lemma transform_loop_applied:
  "transform_loop e tot n b img m st ts = (evs, r) \<Longrightarrow>
     prefix (applied evs) ts \<and> ((\<exists>st'. r = Inr st') \<longrightarrow> applied evs = ts)"
proof (induction ts arbitrary: st evs r)
  case Nil
  then show ?case by auto
next
  case (Cons t ts)
  obtain evs1 r1 where one: "apply_one e tot n b img m st t = (evs1, r1)"
    by (cases "apply_one e tot n b img m st t")
  have a1: "applied evs1 = [t]" by (rule apply_one_applied[OF one])
  show ?case
  proof (cases r1)
    case (Inl err)
    with Cons.prems one have "evs = evs1" "r = Inl err" by auto
    with a1 show ?thesis by simp
  next
    case (Inr st1)
    obtain evs2 r2 where two: "transform_loop e tot n b img m st1 ts = (evs2, r2)"
      by (cases "transform_loop e tot n b img m st1 ts")
    with Cons.prems one Inr have "evs = evs1 @ evs2" "r = r2" by auto
    with a1 Cons.IH[OF two] show ?thesis by simp
  qed
qed

lemma transform_loop_applied_first:
  assumes "transform_loop e tot n b img m st (t # ts) = (evs, r)"
  shows "applied evs \<noteq> [] \<and> hd (applied evs) = t"
proof -
  obtain evs1 r1 where one: "apply_one e tot n b img m st t = (evs1, r1)"
    by (cases "apply_one e tot n b img m st t")
  have a1: "applied evs1 = [t]" by (rule apply_one_applied[OF one])
  show ?thesis
  proof (cases r1)
    case (Inl err)
    with assms one have "evs = evs1" by simp
    with a1 show ?thesis by simp
  next
    case (Inr st1)
    obtain evs2 r2 where two: "transform_loop e tot n b img m st1 ts = (evs2, r2)"
      by (cases "transform_loop e tot n b img m st1 ts")
    with assms one Inr have "evs = evs1 @ evs2" by simp
    with a1 show ?thesis by simp
  qed
qed

lemma process_image_applied:
  assumes "process_image e tot st n = (evs, r)"
  shows "prefix (applied evs) TRANSFORMATIONS"
proof (cases "cv2_imread e (join IMAGE_DIR n)")
  case None
  with assms show ?thesis by (auto simp: process_image_def)
next
  case (Some img)
  show ?thesis
  proof (cases "base_id_of n")
    case (Inl err)
    with assms Some show ?thesis by (auto simp: process_image_def)
  next
    case (Inr b)
    show ?thesis
    proof (cases "os_path_exists e (''y/mask_'' @ b @ ''.png'')")
      case True
      with assms Some Inr
      have "transform_loop e tot n b img (cv2_imread_gray e (''y/mask_'' @ b @ ''.png'')) st
              TRANSFORMATIONS = (evs, r)"
        by (simp add: process_image_def Let_def)
      from transform_loop_applied[OF this] show ?thesis by blast
    next
      case False
      with assms Some Inr show ?thesis by (auto simp: process_image_def Let_def)
    qed
  qed
qed

lemma process_image_pair_applied:
  assumes "cv2_imread e (join IMAGE_DIR n) = Some img"
    and "base_id_of n = Inr b"
    and "os_path_exists e (''y/mask_'' @ b @ ''.png'')"
    and "process_image e tot st n = (evs, r)"
  shows "applied evs \<noteq> [] \<and> hd (applied evs) = hd TRANSFORMATIONS \<and>
         ((\<exists>st'. r = Inr st') \<longrightarrow> applied evs = TRANSFORMATIONS)"
proof -
  from assms
  have tl: "transform_loop e tot n b img (cv2_imread_gray e (''y/mask_'' @ b @ ''.png'')) st
              TRANSFORMATIONS = (evs, r)"
    by (simp add: process_image_def Let_def)
  have eq: "TRANSFORMATIONS = hd TRANSFORMATIONS # tl TRANSFORMATIONS"
    by (simp add: TRANSFORMATIONS_def)
  from tl have "transform_loop e tot n b img (cv2_imread_gray e (''y/mask_'' @ b @ ''.png'')) st
              (hd TRANSFORMATIONS # tl TRANSFORMATIONS) = (evs, r)"
    using eq by simp
  from transform_loop_applied_first[OF this] transform_loop_applied[OF tl]
  show ?thesis by blast
qed

text \<open>
  C6. The list holds exactly five configurations, in the order of the source: four
  photometric ones and then \<^verbatim>\<open>ShiftScaleRotate\<close> with shift limit 0.02, scale limit 0.2,
  rotate limit 5, linear interpolation, constant border and fill 0. For every name the
  transforms called are a start of that list, in that order. For a name whose image decodes
  and whose mask file exists the first of them is called, and all five are, in the order of
  the list, when its processing ends without an error. What is called for a name the run
  reaches is part of the run.
\<close>

theorem transforms_fixed_order:
  "length TRANSFORMATIONS = 5 \<and>
   map class_name TRANSFORMATIONS =
     [''RandomBrightnessContrast'', ''Defocus'', ''GlassBlur'', ''ISONoise'', ''ShiftScaleRotate''] \<and>
   map is_geometric TRANSFORMATIONS = [False, False, False, False, True] \<and>
   last TRANSFORMATIONS = ShiftScaleRotate (2 / 100) (2 / 10) 5 INTER_LINEAR BORDER_CONSTANT 0 0 1 \<and>
   (process_image e tot st n = (evs, r) \<longrightarrow> prefix (applied evs) TRANSFORMATIONS) \<and>
   (cv2_imread e (join IMAGE_DIR n) = Some img \<and> base_id_of n = Inr b \<and>
    os_path_exists e (''y/mask_'' @ b @ ''.png'') \<and> process_image e tot st n = (evs, r) \<longrightarrow>
      applied evs \<noteq> [] \<and> hd (applied evs) = hd TRANSFORMATIONS) \<and>
   (cv2_imread e (join IMAGE_DIR n) = Some img \<and> base_id_of n = Inr b \<and>
    os_path_exists e (''y/mask_'' @ b @ ''.png'') \<and> process_image e tot st n = (evs, Inr st') \<longrightarrow>
      applied evs = TRANSFORMATIONS) \<and>
   (image_files e = before @ n # rest \<and>
    image_loop e (total_outputs e) \<lparr>counter = 1, rng = seed\<rparr> before = (evs0, Inr st0) \<and>
    process_image e (total_outputs e) st0 n = (evs, r) \<longrightarrow>
      (\<exists>tail. fst (pipeline e seed) = header e @ evs0 @ evs @ tail))"
proof -
  have c1: "length TRANSFORMATIONS = 5" by (simp add: TRANSFORMATIONS_def)
  have c2: "map class_name TRANSFORMATIONS =
     [''RandomBrightnessContrast'', ''Defocus'', ''GlassBlur'', ''ISONoise'', ''ShiftScaleRotate'']"
    by (simp add: TRANSFORMATIONS_def)
  have c3: "map is_geometric TRANSFORMATIONS = [False, False, False, False, True]"
    by (simp add: TRANSFORMATIONS_def)
  have c4: "last TRANSFORMATIONS =
      ShiftScaleRotate (2 / 100) (2 / 10) 5 INTER_LINEAR BORDER_CONSTANT 0 0 1"
    by (simp add: TRANSFORMATIONS_def)
  have c5: "process_image e tot st n = (evs, r) \<longrightarrow> prefix (applied evs) TRANSFORMATIONS"
    using process_image_applied by blast
  have c6: "cv2_imread e (join IMAGE_DIR n) = Some img \<and> base_id_of n = Inr b \<and>
    os_path_exists e (''y/mask_'' @ b @ ''.png'') \<and> process_image e tot st n = (evs, r) \<longrightarrow>
      applied evs \<noteq> [] \<and> hd (applied evs) = hd TRANSFORMATIONS"
    using process_image_pair_applied by blast
  have c7: "cv2_imread e (join IMAGE_DIR n) = Some img \<and> base_id_of n = Inr b \<and>
    os_path_exists e (''y/mask_'' @ b @ ''.png'') \<and> process_image e tot st n = (evs, Inr st') \<longrightarrow>
      applied evs = TRANSFORMATIONS"
    using process_image_pair_applied by blast
  have c8: "image_files e = before @ n # rest \<and>
    image_loop e (total_outputs e) \<lparr>counter = 1, rng = seed\<rparr> before = (evs0, Inr st0) \<and>
    process_image e (total_outputs e) st0 n = (evs, r) \<longrightarrow>
      (\<exists>tail. fst (pipeline e seed) = header e @ evs0 @ evs @ tail)"
    using pipeline_reaches by blast
  show ?thesis
    by (intro conjI c1 c2 c3 c4 c5 c6 c7 c8)
qed

lemma demo_first:
  "process_image demo_env 15 \<lparr>counter = 1, rng = 0\<rparr> ''image_1.jpg'' =
     (take 30 (drop 4 demo_trace), Inr \<lparr>counter = 6, rng = 5\<rparr>)"
  by (simp add: demo_env_def demo_trace_def model_defs demo_defs)

lemma demo_total: "total_outputs demo_env = 15"
  by (simp add: total_outputs_def demo_files TRANSFORMATIONS_def)

lemma demo_listing: "image_files demo_env = [] @ ''image_1.jpg'' # [''image_7.jpg'', ''IMAGE_2_b.JPG'']"
  by (simp add: demo_files)

text \<open>The theorem at the good pair of the example world, the first name of its run.\<close>

theorem transforms_fixed_order_witness:
  "cv2_imread demo_env (join IMAGE_DIR ''image_1.jpg'') = Some demo_image \<and>
   base_id_of ''image_1.jpg'' = Inr ''1'' \<and>
   os_path_exists demo_env ''y/mask_1.png'' \<and>
   process_image demo_env 15 \<lparr>counter = 1, rng = 0\<rparr> ''image_1.jpg'' =
     (take 30 (drop 4 demo_trace), Inr \<lparr>counter = 6, rng = 5\<rparr>) \<and>
   applied (take 30 (drop 4 demo_trace)) = TRANSFORMATIONS \<and>
   (\<exists>tail. fst (pipeline demo_env 0) =
      header demo_env @ [] @ take 30 (drop 4 demo_trace) @ tail)"
proof -
  have h1: "cv2_imread demo_env (join IMAGE_DIR ''image_1.jpg'') = Some demo_image"
    by (simp add: demo_env_def dataset_env_def join_def IMAGE_DIR_def)
  have h2: "base_id_of ''image_1.jpg'' = Inr ''1''" by (simp add: base_id_of_def item_def)
  have h3: "os_path_exists demo_env (''y/mask_'' @ ''1'' @ ''.png'')"
    by (simp add: demo_env_def dataset_env_def)
  have h4: "image_loop demo_env (total_outputs demo_env) \<lparr>counter = 1, rng = 0\<rparr> [] =
              ([], Inr \<lparr>counter = 1, rng = 0\<rparr>)"
    by simp
  have h5: "process_image demo_env (total_outputs demo_env) \<lparr>counter = 1, rng = 0\<rparr> ''image_1.jpg'' =
     (take 30 (drop 4 demo_trace), Inr \<lparr>counter = 6, rng = 5\<rparr>)"
    unfolding demo_total by (rule demo_first)
  note t = transforms_fixed_order[where e = demo_env and n = "''image_1.jpg''" and
      img = demo_image and b = "''1''" and st = "\<lparr>counter = 1, rng = 0\<rparr>" and
      st0 = "\<lparr>counter = 1, rng = 0\<rparr>" and evs = "take 30 (drop 4 demo_trace)" and
      st' = "\<lparr>counter = 6, rng = 5\<rparr>" and r = "Inr \<lparr>counter = 6, rng = 5\<rparr>" and
      tot = 15 and before = "[]" and rest = "[''image_7.jpg'', ''IMAGE_2_b.JPG'']" and
      seed = 0 and evs0 = "[]"]
  from t h1 h2 h3 demo_first have a: "applied (take 30 (drop 4 demo_trace)) = TRANSFORMATIONS"
    by blast
  from t demo_listing h4 h5
  have b: "\<exists>tail. fst (pipeline demo_env 0) =
      header demo_env @ [] @ take 30 (drop 4 demo_trace) @ tail"
    by blast
  from h3 have h3': "os_path_exists demo_env ''y/mask_1.png''" by simp
  show ?thesis by (intro conjI h1 h2 h3' demo_first a b)
qed

section \<open>A mask that does not decode\<close>

lemma printed_append [simp]: "printed (xs @ ys) = printed xs @ printed ys"
  by (induction xs rule: printed.induct) auto

lemma first_dirs:
  "join OUT_IMAGE_ROOT (class_name (hd TRANSFORMATIONS)) = ''augmented_x/RandomBrightnessContrast'' \<and>
   join OUT_MASK_ROOT (class_name (hd TRANSFORMATIONS)) = ''augmented_y/RandomBrightnessContrast''"
  by (simp add: TRANSFORMATIONS_def join_def OUT_IMAGE_ROOT_def OUT_MASK_ROOT_def)

lemma apply_one_none:
  assumes "none_stays_none e"
  shows "\<exists>evs err. apply_one e tot n b img None st t = (evs, Inl err) \<and>
           take 3 evs = [MakeDirs (join OUT_IMAGE_ROOT (class_name t)),
                         MakeDirs (join OUT_MASK_ROOT (class_name t)), Apply t img None] \<and>
           printed evs = [] \<and> applied evs = [t] \<and>
           set (write_paths evs) \<subseteq> {out_image_path n t}"
proof (cases "apply_aug e t (rng st) img None")
  case (Inl err)
  then show ?thesis by (simp add: apply_one_def Let_def)
next
  case (Inr pair)
  obtain a r where pair: "pair = (a, r)" by (cases pair)
  with Inr assms have "r = None" unfolding none_stays_none_def by blast
  with Inr pair show ?thesis by (simp add: apply_one_def Let_def)
qed

text \<open>
  C9. When the expected mask file exists and the grayscale read returns \<^verbatim>\<open>None\<close>, the
  image is not skipped and nothing is printed: both directories of the first transform are
  created, the first transform is called with the image and the \<^verbatim>\<open>None\<close> mask, and an
  error ends the image and the loop; no mask file is written. The library is taken never to
  return a mask where it was given none.
\<close>

theorem undecodable_mask_fatal:
  assumes "cv2_imread e (join IMAGE_DIR n) = Some img"
    and "base_id_of n = Inr b"
    and "os_path_exists e (''y/mask_'' @ b @ ''.png'')"
    and "cv2_imread_gray e (''y/mask_'' @ b @ ''.png'') = None"
    and "none_stays_none e"
  shows "\<exists>evs err. process_image e tot st n = (evs, Inl err) \<and>
           image_loop e tot st (n # rest) = (evs, Inl err) \<and>
           take 3 evs = [MakeDirs ''augmented_x/RandomBrightnessContrast'',
                         MakeDirs ''augmented_y/RandomBrightnessContrast'',
                         Apply (hd TRANSFORMATIONS) img None] \<and>
           printed evs = [] \<and> applied evs = [hd TRANSFORMATIONS] \<and>
           set (write_paths evs) \<subseteq> {out_image_path n (hd TRANSFORMATIONS)}"
proof -
  from apply_one_none[OF assms(5), of tot n b img st "hd TRANSFORMATIONS"]
  obtain evs err where
    one: "apply_one e tot n b img None st (hd TRANSFORMATIONS) = (evs, Inl err)" and
    rest: "take 3 evs = [MakeDirs (join OUT_IMAGE_ROOT (class_name (hd TRANSFORMATIONS))),
                         MakeDirs (join OUT_MASK_ROOT (class_name (hd TRANSFORMATIONS))),
                         Apply (hd TRANSFORMATIONS) img None]"
      "printed evs = []" "applied evs = [hd TRANSFORMATIONS]"
      "set (write_paths evs) \<subseteq> {out_image_path n (hd TRANSFORMATIONS)}"
    by blast
  have eq: "hd TRANSFORMATIONS # tl TRANSFORMATIONS = TRANSFORMATIONS"
    by (simp add: TRANSFORMATIONS_def)
  have "transform_loop e tot n b img None st (hd TRANSFORMATIONS # tl TRANSFORMATIONS) =
          (evs, Inl err)"
    using one by simp
  then have "transform_loop e tot n b img None st TRANSFORMATIONS = (evs, Inl err)"
    unfolding eq .
  with assms(1-4) have pi: "process_image e tot st n = (evs, Inl err)"
    by (simp add: process_image_def Let_def)
  then have "image_loop e tot st (n # rest) = (evs, Inl err)" by simp
  with pi rest show ?thesis unfolding first_dirs[THEN conjunct1] first_dirs[THEN conjunct2]
    by blast
qed

lemma demo_none: "none_stays_none broken_mask_env"
  by (simp add: none_stays_none_def broken_mask_env_def dataset_env_def demo_aug_def)

theorem undecodable_mask_fatal_witness:
  "cv2_imread broken_mask_env (join IMAGE_DIR ''image_1.jpg'') = Some demo_image \<and>
   base_id_of ''image_1.jpg'' = Inr ''1'' \<and>
   os_path_exists broken_mask_env ''y/mask_1.png'' \<and>
   cv2_imread_gray broken_mask_env ''y/mask_1.png'' = None \<and>
   none_stays_none broken_mask_env \<and>
   (\<exists>evs err. process_image broken_mask_env 5 \<lparr>counter = 1, rng = 0\<rparr> ''image_1.jpg'' = (evs, Inl err) \<and>
      take 3 evs = [MakeDirs ''augmented_x/RandomBrightnessContrast'',
                    MakeDirs ''augmented_y/RandomBrightnessContrast'',
                    Apply (hd TRANSFORMATIONS) demo_image None] \<and>
      printed evs = [])"
proof -
  have h1: "cv2_imread broken_mask_env (join IMAGE_DIR ''image_1.jpg'') = Some demo_image"
    by (simp add: broken_mask_env_def dataset_env_def join_def IMAGE_DIR_def)
  have h2: "base_id_of ''image_1.jpg'' = Inr ''1''" by (simp add: base_id_of_def item_def)
  have h3: "os_path_exists broken_mask_env (''y/mask_'' @ ''1'' @ ''.png'')"
    by (simp add: broken_mask_env_def dataset_env_def)
  have h4: "cv2_imread_gray broken_mask_env (''y/mask_'' @ ''1'' @ ''.png'') = None"
    by (simp add: broken_mask_env_def dataset_env_def)
  from undecodable_mask_fatal[OF h1 h2 h3 h4 demo_none, of 5 "\<lparr>counter = 1, rng = 0\<rparr>" "[]"]
  have "\<exists>evs err. process_image broken_mask_env 5 \<lparr>counter = 1, rng = 0\<rparr> ''image_1.jpg'' = (evs, Inl err) \<and>
      take 3 evs = [MakeDirs ''augmented_x/RandomBrightnessContrast'',
                    MakeDirs ''augmented_y/RandomBrightnessContrast'',
                    Apply (hd TRANSFORMATIONS) demo_image None] \<and>
      printed evs = []"
    by blast
  with h1 h2 h3 h4 demo_none show ?thesis by simp
qed

section \<open>Paths are planned by the names\<close>





lemma write_paths_header [simp]: "write_paths (header e) = []"
  by (simp add: header_def)














section \<open>Dimensions of the emitted pairs\<close>

lemma write_pairs_single: "quiet ys \<Longrightarrow> write_pairs (ev # ys) = write_pairs ys"
  by (cases ev; cases ys rule: quiet.cases) auto

lemma write_pairs_append:
  "quiet ys \<Longrightarrow> write_pairs (xs @ ys) = write_pairs xs @ write_pairs ys"
  by (induction xs rule: write_pairs.induct) (auto simp: write_pairs_single)

lemma quiet_append: "quiet (xs @ ys) = (if xs = [] then quiet ys else quiet xs)"
  by (cases xs rule: quiet.cases) auto

lemma apply_one_pairs:
  assumes "apply_one e tot n b img (Some mk) st t = (evs, r)"
  shows "(\<forall>(x, y) \<in> set (write_pairs evs). apply_aug e t (rng st) img (Some mk) = Inr (x, Some y)) \<and>
         quiet evs \<and> ((\<exists>st'. r = Inr st') \<longrightarrow> length (write_pairs evs) = 1)"
proof (cases r)
  case (Inl err)
  from apply_one_Inl[OF assms[unfolded Inl]] Inl show ?thesis by auto
next
  case (Inr st')
  from apply_one_Inr[OF assms[unfolded Inr]] obtain a mk' where
    lib: "apply_aug e t (rng st) img (Some mk) = Inr (a, Some mk')" and
    evs: "write_pairs evs = [(a, mk')]" "quiet evs"
    by auto
  then show ?thesis by simp
qed

lemma transform_loop_pairs:
  "transform_loop e tot n b img (Some mk) st ts = (evs, r) \<Longrightarrow>
     (\<forall>(x, y) \<in> set (write_pairs evs). \<exists>t k. apply_aug e t k img (Some mk) = Inr (x, Some y)) \<and>
     quiet evs \<and> ((\<exists>st'. r = Inr st') \<longrightarrow> length (write_pairs evs) = length ts)"
proof (induction ts arbitrary: st evs r)
  case Nil
  then show ?case by simp
next
  case (Cons t ts)
  obtain evs1 r1 where one: "apply_one e tot n b img (Some mk) st t = (evs1, r1)"
    by (cases "apply_one e tot n b img (Some mk) st t")
  note p1 = apply_one_pairs[OF one]
  from p1 have q1: "quiet evs1" by blast
  from p1 have s1: "\<forall>(x, y) \<in> set (write_pairs evs1).
      \<exists>t k. apply_aug e t k img (Some mk) = Inr (x, Some y)"
    by blast
  show ?case
  proof (cases r1)
    case (Inl err)
    with Cons.prems one have "evs = evs1" "r = Inl err" by simp_all
    with q1 s1 show ?thesis by simp
  next
    case (Inr st1)
    obtain evs2 r2 where two: "transform_loop e tot n b img (Some mk) st1 ts = (evs2, r2)"
      by (cases "transform_loop e tot n b img (Some mk) st1 ts")
    with Cons.prems one Inr have evs: "evs = evs1 @ evs2" and r: "r = r2" by simp_all
    note p2 = Cons.IH[OF two]
    from p2 have q2: "quiet evs2" by blast
    from p2 have s2: "\<forall>(x, y) \<in> set (write_pairs evs2).
        \<exists>t k. apply_aug e t k img (Some mk) = Inr (x, Some y)"
      by blast
    from p1 Inr have l1: "length (write_pairs evs1) = 1" by blast
    from p2 r have l2: "(\<exists>st'. r = Inr st') \<longrightarrow> length (write_pairs evs2) = length ts" by blast
    have wp: "write_pairs evs = write_pairs evs1 @ write_pairs evs2"
      unfolding evs by (rule write_pairs_append[OF q2])
    have q: "quiet evs" unfolding evs using q1 q2 by (simp add: quiet_append)
    from s1 s2 have s: "\<forall>(x, y) \<in> set (write_pairs evs).
        \<exists>t k. apply_aug e t k img (Some mk) = Inr (x, Some y)"
      unfolding wp by auto
    from l1 l2 have l: "(\<exists>st'. r = Inr st') \<longrightarrow> length (write_pairs evs) = length (t # ts)"
      unfolding wp by simp
    from s q l show ?thesis by blast
  qed
qed

lemma process_image_pairs:
  assumes "cv2_imread e (join IMAGE_DIR n) = Some img"
    and "base_id_of n = Inr b"
    and "os_path_exists e (''y/mask_'' @ b @ ''.png'')"
    and "cv2_imread_gray e (''y/mask_'' @ b @ ''.png'') = Some mk"
    and "process_image e tot st n = (evs, r)"
  shows "(\<forall>(x, y) \<in> set (write_pairs evs). \<exists>t k. apply_aug e t k img (Some mk) = Inr (x, Some y)) \<and>
         quiet evs \<and> ((\<exists>st'. r = Inr st') \<longrightarrow> length (write_pairs evs) = 5)"
proof -
  from assms have tl: "transform_loop e tot n b img (Some mk) st TRANSFORMATIONS = (evs, r)"
    by (simp add: process_image_def Let_def)
  have "length TRANSFORMATIONS = 5" by (simp add: TRANSFORMATIONS_def)
  with transform_loop_pairs[OF tl] show ?thesis by simp
qed

text \<open>
  C2, as amended. Take an input pair whose image and mask decode to the same height and
  width. Every pair of files written for it is the image and the mask one call of the
  library returned for that image and that mask, untouched, and there are five of them when
  the processing ends without an error. So with a library that returns an image and a mask
  of equal height and width whenever it is given such a pair, every emitted mask has the
  height and width of the image emitted with it, under every transform. The events of a name
  the run reaches are part of the run.
\<close>

theorem emitted_pairs_same_dims:
  assumes lib: "keeps_shape e"
    and decodes: "cv2_imread e (join IMAGE_DIR image_name) = Some img"
    and id: "base_id_of image_name = Inr base_id"
    and mask_exists: "os_path_exists e (''y/mask_'' @ base_id @ ''.png'')"
    and mask_decodes: "cv2_imread_gray e (''y/mask_'' @ base_id @ ''.png'') = Some mk"
    and same: "hw img = hw mk"
    and body: "process_image e tot st image_name = (evs, r)"
  shows "(\<forall>(da, db) \<in> set (pair_dims evs). da = db) \<and>
         (\<forall>(x, y) \<in> set (write_pairs evs). \<exists>t k. apply_aug e t k img (Some mk) = Inr (x, Some y)) \<and>
         ((\<exists>st'. r = Inr st') \<longrightarrow> length (pair_dims evs) = 5) \<and>
         (tot = total_outputs e \<and> image_files e = before @ image_name # rest \<and>
          image_loop e (total_outputs e) \<lparr>counter = 1, rng = seed\<rparr> before = (evs0, Inr st) \<longrightarrow>
            (\<exists>tail. fst (pipeline e seed) = header e @ evs0 @ evs @ tail))"
proof -
  note p = process_image_pairs[OF decodes id mask_exists mask_decodes body]
  from p have lib_pairs: "\<forall>(x, y) \<in> set (write_pairs evs).
      \<exists>t k. apply_aug e t k img (Some mk) = Inr (x, Some y)"
    by blast
  have dims: "\<forall>(da, db) \<in> set (pair_dims evs). da = db"
  proof -
    have "hw x = hw y" if "(x, y) \<in> set (write_pairs evs)" for x y
    proof -
      from lib_pairs that obtain t k where "apply_aug e t k img (Some mk) = Inr (x, Some y)"
        by blast
      with lib same show ?thesis unfolding keeps_shape_def by blast
    qed
    then show ?thesis by (auto simp: pair_dims_def)
  qed
  from p have five: "(\<exists>st'. r = Inr st') \<longrightarrow> length (pair_dims evs) = 5"
    by (simp add: pair_dims_def)
  have part: "tot = total_outputs e \<and> image_files e = before @ image_name # rest \<and>
          image_loop e (total_outputs e) \<lparr>counter = 1, rng = seed\<rparr> before = (evs0, Inr st) \<longrightarrow>
            (\<exists>tail. fst (pipeline e seed) = header e @ evs0 @ evs @ tail)"
    using pipeline_reaches body by blast
  show ?thesis by (intro conjI dims lib_pairs five part)
qed

lemma demo_keeps_shape: "keeps_shape demo_env"
  by (auto simp: keeps_shape_def demo_env_def dataset_env_def demo_aug_def warp_mask_def hw_def
      split: if_splits)

text \<open>The theorem at the good pair of the example world, two by two both.\<close>

theorem emitted_pairs_same_dims_witness:
  "keeps_shape demo_env \<and>
   cv2_imread demo_env (join IMAGE_DIR ''image_1.jpg'') = Some demo_image \<and>
   base_id_of ''image_1.jpg'' = Inr ''1'' \<and>
   os_path_exists demo_env ''y/mask_1.png'' \<and>
   cv2_imread_gray demo_env ''y/mask_1.png'' = Some demo_mask \<and>
   hw demo_image = hw demo_mask \<and>
   process_image demo_env 15 \<lparr>counter = 1, rng = 0\<rparr> ''image_1.jpg'' =
     (take 30 (drop 4 demo_trace), Inr \<lparr>counter = 6, rng = 5\<rparr>) \<and>
   pair_dims (take 30 (drop 4 demo_trace)) =
     [([2, 2], [2, 2]), ([2, 2], [2, 2]), ([2, 2], [2, 2]), ([2, 2], [2, 2]), ([2, 2], [2, 2])] \<and>
   list_all (\<lambda>(da, db). da = db) (pair_dims (take 30 (drop 4 demo_trace))) \<and>
   length (pair_dims (take 30 (drop 4 demo_trace))) = 5"
proof -
  have h1: "cv2_imread demo_env (join IMAGE_DIR ''image_1.jpg'') = Some demo_image"
    by (simp add: demo_env_def dataset_env_def join_def IMAGE_DIR_def)
  have h2: "base_id_of ''image_1.jpg'' = Inr ''1''" by (simp add: base_id_of_def item_def)
  have h3: "os_path_exists demo_env (''y/mask_'' @ ''1'' @ ''.png'')"
    by (simp add: demo_env_def dataset_env_def)
  have h4: "cv2_imread_gray demo_env (''y/mask_'' @ ''1'' @ ''.png'') = Some demo_mask"
    by (simp add: demo_env_def dataset_env_def)
  have h5: "hw demo_image = hw demo_mask" by (simp add: hw_def demo_image_def demo_mask_def)
  note t = emitted_pairs_same_dims[OF demo_keeps_shape h1 h2 h3 h4 h5 demo_first]
  from t have same: "\<forall>(da, db) \<in> set (pair_dims (take 30 (drop 4 demo_trace))). da = db"
    by (rule conjunct1)
  have every: "list_all (\<lambda>(da, db). da = db) (pair_dims (take 30 (drop 4 demo_trace)))"
    unfolding list_all_iff by (rule same)
  from t have five: "length (pair_dims (take 30 (drop 4 demo_trace))) = 5" by blast
  have dims: "pair_dims (take 30 (drop 4 demo_trace)) =
     [([2, 2], [2, 2]), ([2, 2], [2, 2]), ([2, 2], [2, 2]), ([2, 2], [2, 2]), ([2, 2], [2, 2])]"
    by (simp add: pair_dims_def demo_trace_def hw_def demo_mask_def)
  from h3 have h3': "os_path_exists demo_env ''y/mask_1.png''" by simp
  from h4 have h4': "cv2_imread_gray demo_env ''y/mask_1.png'' = Some demo_mask" by simp
  show ?thesis
    by (intro conjI demo_keeps_shape h1 h2 h3' h4' h5 demo_first dims every five)
qed

text \<open>
  C2 as stated fails: the script never compares the two shapes. Here the mask is three by
  three and the image two by two; the four photometric transforms hand the mask back as it
  is, and it is written at three by three next to the image of two by two.
\<close>

theorem emitted_pairs_same_dims_counterexample:
  "cv2_imread mismatch_env ''X/image_1.jpg'' = Some demo_image \<and>
   cv2_imread_gray mismatch_env ''y/mask_1.png'' =
     Some (NDArray [3, 3] [0, 0, 0, 0, 255, 0, 0, 0, 0]) \<and>
   pair_dims (fst (pipeline mismatch_env 0)) =
     [([2, 2], [3, 3]), ([2, 2], [3, 3]), ([2, 2], [3, 3]), ([2, 2], [3, 3]), ([2, 2], [2, 2])]"
  by (simp add: mismatch_env_def model_defs demo_defs pair_dims_def)

section \<open>Progress lines\<close>

lemma apply_one_Inr_lines:
  assumes "apply_one e tot n b img m st t = (evs, Inr st')"
  shows "(\<forall>ys. saved_lines (evs @ ys) =
            progress_line (counter st) tot (class_name t) # saved_lines ys) \<and>
         counter st' = Suc (counter st) \<and> length (write_paths evs) = 2"
  using apply_one_Inr[OF assms] by auto

lemma apply_one_Inl_lines:
  assumes "apply_one e tot n b img m st t = (evs, Inl err)"
  shows "saved_lines evs = []"
  using apply_one_Inl[OF assms] by auto

lemma transform_loop_lines:
  "transform_loop e tot n b img m st ts = (evs, r) \<Longrightarrow>
     \<exists>j\<le>length ts.
       saved_lines evs =
         map (\<lambda>i. progress_line (counter st + i) tot (class_name (ts ! i))) [0..<j] \<and>
       (\<forall>st'. r = Inr st' \<longrightarrow>
          j = length ts \<and> counter st' = counter st + length ts \<and>
          length (write_paths evs) = 2 * length ts \<and>
          (\<forall>ys. saved_lines (evs @ ys) = saved_lines evs @ saved_lines ys))"
proof (induction ts arbitrary: st evs r)
  case Nil
  then have "evs = []" "r = Inr st" by simp_all
  then show ?case by (intro exI[of _ 0]) simp
next
  case (Cons t ts)
  obtain evs1 r1 where one: "apply_one e tot n b img m st t = (evs1, r1)"
    by (cases "apply_one e tot n b img m st t")
  show ?case
  proof (cases r1)
    case (Inl err)
    with Cons.prems one have "evs = evs1" "r = Inl err" by auto
    moreover have "saved_lines evs1 = []"
      by (rule apply_one_Inl_lines[OF one[unfolded Inl]])
    ultimately show ?thesis by (intro exI[of _ 0]) simp
  next
    case (Inr st1)
    note b = apply_one_Inr_lines[OF one[unfolded Inr]]
    note head = b[THEN conjunct1, rule_format]
      and c1 = b[THEN conjunct2, THEN conjunct1]
      and w1 = b[THEN conjunct2, THEN conjunct2]
    obtain evs2 r2 where two: "transform_loop e tot n b img m st1 ts = (evs2, r2)"
      by (cases "transform_loop e tot n b img m st1 ts")
    with Cons.prems one Inr have evs: "evs = evs1 @ evs2" and r: "r = r2" by auto
    from Cons.IH[OF two] obtain j where
      ih: "j \<le> length ts \<and>
        saved_lines evs2 =
         map (\<lambda>i. progress_line (counter st1 + i) tot (class_name (ts ! i))) [0..<j] \<and>
        (\<forall>st'. r2 = Inr st' \<longrightarrow>
          j = length ts \<and> counter st' = counter st1 + length ts \<and>
          length (write_paths evs2) = 2 * length ts \<and>
          (\<forall>ys. saved_lines (evs2 @ ys) = saved_lines evs2 @ saved_lines ys))" ..
    note j = ih[THEN conjunct1]
      and lines = ih[THEN conjunct2, THEN conjunct1]
      and fin = ih[THEN conjunct2, THEN conjunct2]
    have l: "saved_lines evs =
        map (\<lambda>i. progress_line (counter st + i) tot (class_name ((t # ts) ! i))) [0..<Suc j]"
      unfolding evs head lines map_upt_Suc by (simp add: c1)
    have f: "\<forall>st'. r = Inr st' \<longrightarrow>
          Suc j = length (t # ts) \<and> counter st' = counter st + length (t # ts) \<and>
          length (write_paths evs) = 2 * length (t # ts) \<and>
          (\<forall>ys. saved_lines (evs @ ys) = saved_lines evs @ saved_lines ys)"
    proof (intro allI impI)
      fix st' assume "r = Inr st'"
      with r have r2: "r2 = Inr st'" by simp
      note k = fin[rule_format, OF r2]
      note kj = k[THEN conjunct1] and kc = k[THEN conjunct2, THEN conjunct1]
        and kw = k[THEN conjunct2, THEN conjunct2, THEN conjunct1]
        and ka = k[THEN conjunct2, THEN conjunct2, THEN conjunct2, rule_format]
      have "Suc j = length (t # ts)" using kj by simp
      moreover have "counter st' = counter st + length (t # ts)" using kc c1 by simp
      moreover have "length (write_paths evs) = 2 * length (t # ts)"
        unfolding evs using kw w1 by simp
      moreover have "\<forall>ys. saved_lines (evs @ ys) = saved_lines evs @ saved_lines ys"
        unfolding evs append_assoc head ka by simp
      ultimately show "Suc j = length (t # ts) \<and> counter st' = counter st + length (t # ts) \<and>
          length (write_paths evs) = 2 * length (t # ts) \<and>
          (\<forall>ys. saved_lines (evs @ ys) = saved_lines evs @ saved_lines ys)"
        by (intro conjI)
    qed
    from j have "Suc j \<le> length (t # ts)" by simp
    with l f have "Suc j \<le> length (t # ts) \<and>
        saved_lines evs =
          map (\<lambda>i. progress_line (counter st + i) tot (class_name ((t # ts) ! i))) [0..<Suc j] \<and>
        (\<forall>st'. r = Inr st' \<longrightarrow>
          Suc j = length (t # ts) \<and> counter st' = counter st + length (t # ts) \<and>
          length (write_paths evs) = 2 * length (t # ts) \<and>
          (\<forall>ys. saved_lines (evs @ ys) = saved_lines evs @ saved_lines ys))"
      by (intro conjI)
    then show ?thesis by (rule exI[of _ "Suc j"])
  qed
qed

lemma shift_lines:
  assumes "5 dvd c" and "j \<le> 5"
  shows "map (\<lambda>i. progress_line (Suc c + i) tot (class_name (TRANSFORMATIONS ! i))) [0..<j] =
         map (expected_line tot) [c..<c + j]"
proof -
  have "[c..<c + j] = map (\<lambda>i. i + c) [0..<j]"
    by (simp add: map_add_upt add.commute)
  moreover have "map (expected_line tot) (map (\<lambda>i. i + c) [0..<j]) =
      map (\<lambda>i. progress_line (Suc c + i) tot (class_name (TRANSFORMATIONS ! i))) [0..<j]"
  proof (simp only: map_map, rule map_cong[OF refl])
    fix i assume "i \<in> set [0..<j]"
    with assms(2) have "i < 5" by simp
    moreover from assms(1) obtain q where "c = 5 * q" by (auto simp: dvd_def)
    ultimately have "(i + c) mod 5 = i" by simp
    then show "(expected_line tot \<circ> (\<lambda>i. i + c)) i =
        progress_line (Suc c + i) tot (class_name (TRANSFORMATIONS ! i))"
      by (simp add: expected_line_def progress_line_def add.commute)
  qed
  ultimately show ?thesis by simp
qed

lemma process_image_lines:
  assumes run: "process_image e tot st n = (evs, r)"
    and c: "counter st = Suc c" and d: "5 dvd c"
  shows "\<exists>j. saved_lines evs = map (expected_line tot) [c..<c + j] \<and>
           (\<forall>st'. r = Inr st' \<longrightarrow>
              5 dvd j \<and> counter st' = Suc (c + j) \<and> length (write_paths evs) = 2 * j \<and>
              (\<forall>ys. saved_lines (evs @ ys) = saved_lines evs @ saved_lines ys))"
proof -
  have skip: "?thesis" if "evs = [] \<or> (\<exists>w. evs = [Print w])" and "\<forall>st'. r = Inr st' \<longrightarrow> st' = st"
  proof -
    from that(1) have "saved_lines evs = []" "length (write_paths evs) = 0"
      "\<forall>ys. saved_lines (evs @ ys) = saved_lines evs @ saved_lines ys"
      by auto
    with that(2) c have "saved_lines evs = map (expected_line tot) [c..<c + 0] \<and>
           (\<forall>st'. r = Inr st' \<longrightarrow>
              5 dvd (0::nat) \<and> counter st' = Suc (c + 0) \<and> length (write_paths evs) = 2 * 0 \<and>
              (\<forall>ys. saved_lines (evs @ ys) = saved_lines evs @ saved_lines ys))"
      by auto
    then show ?thesis by blast
  qed
  show ?thesis
  proof (cases "cv2_imread e (join IMAGE_DIR n)")
    case None
    with run show ?thesis by (intro skip) (auto simp: process_image_def)
  next
    case (Some img)
    show ?thesis
    proof (cases "base_id_of n")
      case (Inl err)
      with run Some show ?thesis by (intro skip) (auto simp: process_image_def)
    next
      case (Inr b)
      show ?thesis
      proof (cases "os_path_exists e (''y/mask_'' @ b @ ''.png'')")
        case False
        with run Some Inr show ?thesis by (intro skip) (auto simp: process_image_def Let_def)
      next
        case True
        with run Some Inr
        have tl: "transform_loop e tot n b img (cv2_imread_gray e (''y/mask_'' @ b @ ''.png'')) st
                TRANSFORMATIONS = (evs, r)"
          by (simp add: process_image_def Let_def)
        have len: "length TRANSFORMATIONS = 5" by (simp add: TRANSFORMATIONS_def)
        from transform_loop_lines[OF tl] obtain j where
          j: "j \<le> 5" and
          lines: "saved_lines evs =
             map (\<lambda>i. progress_line (Suc c + i) tot (class_name (TRANSFORMATIONS ! i))) [0..<j]" and
          fin: "\<forall>st'. r = Inr st' \<longrightarrow>
              j = 5 \<and> counter st' = Suc c + 5 \<and> length (write_paths evs) = 2 * 5 \<and>
              (\<forall>ys. saved_lines (evs @ ys) = saved_lines evs @ saved_lines ys)"
          unfolding len c by blast
        from lines have "saved_lines evs = map (expected_line tot) [c..<c + j]"
          by (simp only: shift_lines[OF d j])
        moreover from fin have "\<forall>st'. r = Inr st' \<longrightarrow>
              5 dvd j \<and> counter st' = Suc (c + j) \<and> length (write_paths evs) = 2 * j \<and>
              (\<forall>ys. saved_lines (evs @ ys) = saved_lines evs @ saved_lines ys)"
          by auto
        ultimately show ?thesis by blast
      qed
    qed
  qed
qed

lemma image_loop_lines:
  "image_loop e tot st names = (evs, r) \<Longrightarrow> counter st = Suc c \<Longrightarrow> 5 dvd c \<Longrightarrow>
     \<exists>j. saved_lines evs = map (expected_line tot) [c..<c + j] \<and>
       (\<forall>st'. r = Inr st' \<longrightarrow>
          5 dvd j \<and> counter st' = Suc (c + j) \<and> length (write_paths evs) = 2 * j \<and>
          (\<forall>ys. saved_lines (evs @ ys) = saved_lines evs @ saved_lines ys))"
proof (induction names arbitrary: st evs r c)
  case Nil
  then have "saved_lines evs = map (expected_line tot) [c..<c + 0] \<and>
       (\<forall>st'. r = Inr st' \<longrightarrow>
          5 dvd (0::nat) \<and> counter st' = Suc (c + 0) \<and> length (write_paths evs) = 2 * 0 \<and>
          (\<forall>ys. saved_lines (evs @ ys) = saved_lines evs @ saved_lines ys))"
    by auto
  then show ?case by blast
next
  case (Cons n names)
  obtain evs1 r1 where one: "process_image e tot st n = (evs1, r1)"
    by (cases "process_image e tot st n")
  from process_image_lines[OF one Cons.prems(2,3)] obtain j1 where
    l1: "saved_lines evs1 = map (expected_line tot) [c..<c + j1]" and
    f1: "\<forall>st'. r1 = Inr st' \<longrightarrow>
          5 dvd j1 \<and> counter st' = Suc (c + j1) \<and> length (write_paths evs1) = 2 * j1 \<and>
          (\<forall>ys. saved_lines (evs1 @ ys) = saved_lines evs1 @ saved_lines ys)"
    by blast
  show ?case
  proof (cases r1)
    case (Inl err)
    with Cons.prems(1) one have "evs = evs1" "r = Inl err" by auto
    with l1 show ?thesis by auto
  next
    case (Inr st1)
    with f1 have d1: "5 dvd j1" and c1: "counter st1 = Suc (c + j1)"
      and w1: "length (write_paths evs1) = 2 * j1"
      and a1: "\<And>ys. saved_lines (evs1 @ ys) = saved_lines evs1 @ saved_lines ys"
      by auto
    obtain evs2 r2 where two: "image_loop e tot st1 names = (evs2, r2)"
      by (cases "image_loop e tot st1 names")
    with Cons.prems(1) one Inr have evs: "evs = evs1 @ evs2" and r: "r = r2" by auto
    from Cons.prems(3) d1 have d2: "5 dvd (c + j1)" by simp
    from Cons.IH[OF two c1 d2] obtain j2 where
      l2: "saved_lines evs2 = map (expected_line tot) [c + j1..<c + j1 + j2]" and
      f2: "\<forall>st'. r2 = Inr st' \<longrightarrow>
          5 dvd j2 \<and> counter st' = Suc (c + j1 + j2) \<and> length (write_paths evs2) = 2 * j2 \<and>
          (\<forall>ys. saved_lines (evs2 @ ys) = saved_lines evs2 @ saved_lines ys)"
      by blast
    have "[c..<c + (j1 + j2)] = [c..<c + j1] @ [c + j1..<c + j1 + j2]"
      using upt_add_eq_append[of c "c + j1" j2] by (simp add: add.assoc)
    then have l: "saved_lines evs = map (expected_line tot) [c..<c + (j1 + j2)]"
      unfolding evs a1 l1 l2 by simp
    have f: "\<forall>st'. r = Inr st' \<longrightarrow>
          5 dvd (j1 + j2) \<and> counter st' = Suc (c + (j1 + j2)) \<and>
          length (write_paths evs) = 2 * (j1 + j2) \<and>
          (\<forall>ys. saved_lines (evs @ ys) = saved_lines evs @ saved_lines ys)"
    proof (intro allI impI)
      fix st' assume "r = Inr st'"
      with r have r2: "r2 = Inr st'" by simp
      note k = f2[rule_format, OF r2]
      note kd = k[THEN conjunct1] and kc = k[THEN conjunct2, THEN conjunct1]
        and kw = k[THEN conjunct2, THEN conjunct2, THEN conjunct1]
        and ka = k[THEN conjunct2, THEN conjunct2, THEN conjunct2, rule_format]
      have "5 dvd (j1 + j2)" using d1 kd by simp
      moreover have "counter st' = Suc (c + (j1 + j2))" using kc by (simp add: add.assoc)
      moreover have "length (write_paths evs) = 2 * (j1 + j2)"
        unfolding evs using kw w1 by simp
      moreover have "\<forall>ys. saved_lines (evs @ ys) = saved_lines evs @ saved_lines ys"
        unfolding evs append_assoc a1 ka by simp
      ultimately show "5 dvd (j1 + j2) \<and> counter st' = Suc (c + (j1 + j2)) \<and>
          length (write_paths evs) = 2 * (j1 + j2) \<and>
          (\<forall>ys. saved_lines (evs @ ys) = saved_lines evs @ saved_lines ys)"
        by (intro conjI)
    qed
    from l f show ?thesis by blast
  qed
qed

lemma saved_lines_header: "saved_lines (header e @ evs) = saved_lines evs"
  by (simp add: header_def)

text \<open>
  C7. The total is the number of discovered names times five, whatever is skipped later,
  and is printed in the header before the loop starts. The lines printed directly after a
  write are, in order, \<^verbatim>\<open>[k/total] Saved -> <TransformName>\<close> for \<open>k = 1, 2, ...\<close>
  without a gap, the transform names coming round in the order of the list; in a run
  that completes every pair of writes has its line, and the counter ends one above the
  number of saves.
\<close>

theorem progress_lines:
  assumes "pipeline e seed = (evs, r)"
  shows "total_outputs e =
           length (filter (\<lambda>f. endswith (lower f) ''.jpg'') (os_listdir e)) * 5 \<and>
         take 4 evs = header e \<and>
         evs ! 2 = Print (''Total outputs to be saved: '' @ str (total_outputs e)) \<and>
         (\<exists>k. saved_lines evs = map (expected_line (total_outputs e)) [0..<k] \<and>
              (\<forall>st. r = Inr st \<longrightarrow> counter st = Suc k \<and> length (write_paths evs) = 2 * k))"
proof -
  have tot: "total_outputs e =
           length (filter (\<lambda>f. endswith (lower f) ''.jpg'') (os_listdir e)) * 5"
    by (simp add: total_outputs_def image_files_def IMAGE_EXTENSION_def TRANSFORMATIONS_def)
  obtain evs' r' where
    loop: "image_loop e (total_outputs e) \<lparr>counter = 1, rng = seed\<rparr> (image_files e) = (evs', r')"
    by (cases "image_loop e (total_outputs e) \<lparr>counter = 1, rng = seed\<rparr> (image_files e)")
  from assms loop have shape: "evs = header e @ evs' \<or> evs = header e @ evs' @ [Print completed_message]"
    and r: "r = r'"
    and fin: "\<And>st. r' = Inr st \<Longrightarrow> evs = header e @ evs' @ [Print completed_message]"
    and err: "\<And>x. r' = Inl x \<Longrightarrow> evs = header e @ evs'"
    by (auto simp: pipeline_def split: sum.splits)
  from shape have hd4: "take 4 evs = header e"
    by (auto simp: header_def)
  from shape have third: "evs ! 2 = Print (''Total outputs to be saved: '' @ str (total_outputs e))"
    by (auto simp: header_def)
  have "counter \<lparr>counter = 1, rng = seed\<rparr> = Suc 0" by simp
  from image_loop_lines[OF loop this]
  have "\<exists>j. saved_lines evs' = map (expected_line (total_outputs e)) [0..<j] \<and>
       (\<forall>st'. r' = Inr st' \<longrightarrow>
          5 dvd j \<and> counter st' = Suc j \<and> length (write_paths evs') = 2 * j \<and>
          (\<forall>ys. saved_lines (evs' @ ys) = saved_lines evs' @ saved_lines ys))"
    by simp
  then obtain j where
    l: "saved_lines evs' = map (expected_line (total_outputs e)) [0..<j]" and
    f: "\<forall>st'. r' = Inr st' \<longrightarrow>
          5 dvd j \<and> counter st' = Suc j \<and> length (write_paths evs') = 2 * j \<and>
          (\<forall>ys. saved_lines (evs' @ ys) = saved_lines evs' @ saved_lines ys)"
    by blast
  have lines: "saved_lines evs = map (expected_line (total_outputs e)) [0..<j]"
  proof (cases r')
    case (Inl x)
    from err[OF Inl] l show ?thesis by (simp add: saved_lines_header)
  next
    case (Inr st)
    with f have "saved_lines (evs' @ [Print completed_message]) = saved_lines evs'"
      by simp
    with fin[OF Inr] l show ?thesis by (simp add: saved_lines_header)
  qed
  have ends: "\<forall>st. r = Inr st \<longrightarrow> counter st = Suc j \<and> length (write_paths evs) = 2 * j"
  proof (intro allI impI)
    fix st assume "r = Inr st"
    with r have r': "r' = Inr st" by simp
    from fin[OF r'] f r' show "counter st = Suc j \<and> length (write_paths evs) = 2 * j"
      by simp
  qed
  from tot hd4 third lines ends show ?thesis by blast
qed

theorem progress_lines_witness:
  "pipeline demo_env 0 = (demo_trace, Inr \<lparr>counter = 6, rng = 5\<rparr>) \<and>
   total_outputs demo_env = 15 \<and>
   saved_lines demo_trace =
     [''[1/15] Saved -> RandomBrightnessContrast'', ''[2/15] Saved -> Defocus'',
      ''[3/15] Saved -> GlassBlur'', ''[4/15] Saved -> ISONoise'',
      ''[5/15] Saved -> ShiftScaleRotate''] \<and>
   saved_lines demo_trace = map (expected_line 15) [0..<5] \<and>
   length (write_paths demo_trace) = 2 * 5"
proof -
  have tot: "total_outputs demo_env = 15"
    by (simp add: total_outputs_def demo_files TRANSFORMATIONS_def)
  have shown: "saved_lines demo_trace =
     [''[1/15] Saved -> RandomBrightnessContrast'', ''[2/15] Saved -> Defocus'',
      ''[3/15] Saved -> GlassBlur'', ''[4/15] Saved -> ISONoise'',
      ''[5/15] Saved -> ShiftScaleRotate'']"
    by (simp add: demo_trace_def)
  from progress_lines[OF demo_run] obtain k where
    k: "saved_lines demo_trace = map (expected_line (total_outputs demo_env)) [0..<k]" and
    e: "\<forall>st. Inr \<lparr>counter = 6, rng = 5\<rparr> = Inr st \<longrightarrow>
          counter st = Suc k \<and> length (write_paths demo_trace) = 2 * k"
    by blast
  from e have "counter \<lparr>counter = 6, rng = 5\<rparr> = Suc k \<and> length (write_paths demo_trace) = 2 * k"
    by blast
  then have "k = 5" "length (write_paths demo_trace) = 2 * 5" by auto
  with k tot shown demo_run show ?thesis by simp
qed

end
